theory Spec2Isabelle
  imports Main "HOL-Library.Word"
begin

unbundle bit_operations_syntax

section \<open>The trace manager of the capture layer (framework/encode/trace\_manager.cpp)\<close>

text \<open>
  A shallow embedding of \<^verbatim>\<open>TraceManager\<close>. Every method is a function on an explicit
  state; a method that dereferences a null pointer, indexes a vector out of range or reads
  host memory it was not given returns a \<open>fault\<close> instead of a state, so such behaviour
  is a branch of the model and never hidden behind an unspecified HOL value.
\<close>

type_synonym byte = "8 word"
type_synonym u32 = "32 word"
type_synonym u64 = "64 word"

datatype fault = NullDereference | OutOfBounds

subsection \<open>Logical thread ids (\<^verbatim>\<open>TraceManager::ThreadData::GetThreadId\<close>)\<close>

text \<open>
  The two statics \<^verbatim>\<open>thread_count_\<close> and \<^verbatim>\<open>id_map_\<close>. \<^verbatim>\<open>format::ThreadId\<close> is a
  64-bit unsigned integer, so \<^verbatim>\<open>++thread_count_\<close> is word addition. The operating
  system's thread id is the argument \<open>tid\<close>; the mutex makes the body atomic. A name
  of the source that ends in an underscore is written without it.
\<close>

record ThreadIds =
  thread_count :: u64
  id_map :: "u64 \<rightharpoonup> u64"

definition ThreadIds_init :: ThreadIds where
  "ThreadIds_init = \<lparr>thread_count = 0, id_map = Map.empty\<rparr>"

definition GetThreadId :: "u64 \<Rightarrow> ThreadIds \<Rightarrow> u64 \<times> ThreadIds" where
  "GetThreadId tid st =
     (case id_map st tid of
        Some entry \<Rightarrow> (entry, st)
      | None \<Rightarrow>
          (let new_id = thread_count st + 1
           in (new_id, st\<lparr>thread_count := new_id, id_map := (id_map st)(tid \<mapsto> new_id)\<rparr>)))"

text \<open>A sequence of calls, made by the threads \<open>tids\<close> in this order; the ids returned.\<close>

fun GetThreadIds :: "u64 list \<Rightarrow> ThreadIds \<Rightarrow> u64 list \<times> ThreadIds" where
  "GetThreadIds [] st = ([], st)"
| "GetThreadIds (tid # tids) st =
     (let (id, st') = GetThreadId tid st;
          (ids, st'') = GetThreadIds tids st'
      in (id # ids, st''))"

text \<open>The distinct elements of a list in the order in which they first occur.\<close>

fun first_seen :: "'a list \<Rightarrow> 'a list \<Rightarrow> 'a list" where
  "first_seen seen [] = seen"
| "first_seen seen (x # xs) = first_seen (if x \<in> set seen then seen else seen @ [x]) xs"

subsection \<open>Settings, modes and the capture file format\<close>

datatype MemoryTrackingMode = kUnassisted | kAssisted | kPageGuard

datatype CompressionType = kNone | kAlgorithm u32

text \<open>
  \<^verbatim>\<open>CaptureSettings::TrimRange\<close>; the member \<^verbatim>\<open>total\<close> is written \<open>total_frames\<close>.
\<close>

record TrimRange =
  first :: u32
  total_frames :: u32

record TraceSettings =
  capture_file_options :: CompressionType
  time_stamp_file :: bool
  memory_tracking_mode_setting :: MemoryTrackingMode
  force_flush :: bool
  trim_ranges_setting :: "TrimRange list"

text \<open>
  Modelled from the spec: the capture mode flags of encode/trace\_manager.h, which is not
  among the sources. The mode is a bitmask over Write and Track, Disabled is 0, and
  Write|Track is both bits.
\<close>

definition kModeDisabled :: u32 where "kModeDisabled = 0"
definition kModeWrite :: u32 where "kModeWrite = 1"
definition kModeTrack :: u32 where "kModeTrack = 2"
definition kModeWriteAndTrack :: u32 where "kModeWriteAndTrack = kModeWrite OR kModeTrack"

definition kFirstFrame :: u32 where "kFirstFrame = 1"

text \<open>
  \<^verbatim>\<open>VK_WHOLE_SIZE\<close> and \<^verbatim>\<open>VK_SUCCESS\<close> of the Vulkan headers: all 64 bits set
  (\<open>2 ^ 64 - 1\<close>), and 0. A
  null pointer and \<^verbatim>\<open>VK_NULL_HANDLE\<close> are the address 0.
\<close>

definition VK_WHOLE_SIZE :: u64 where "VK_WHOLE_SIZE = 18446744073709551615"

type_synonym VkResult = int

definition VK_SUCCESS :: VkResult where "VK_SUCCESS = 0"

definition nullptr :: u64 where "nullptr = 0"

text \<open>
  Modelled from the spec: the block and header structures of format/format.h, which is not
  among the sources. Every block begins with a block header of a 32-bit type and a 64-bit
  size; a function call header adds a 32-bit call id and a 64-bit thread id, its compressed
  variant a 64-bit uncompressed size; a fill-memory command header is a meta-data header (block
  header, 32-bit meta-data type) followed by the 64-bit thread id, memory id, memory
  offset and memory size; a display message command header is a meta-data header and the
  thread id; a resize window command is a meta-data header, the thread id, the 64-bit
  surface id and the 32-bit width and height. The structures are packed and
  little-endian.
\<close>

datatype BlockType =
  kFunctionCallBlock | kCompressedFunctionCallBlock | kMetaDataBlock | kCompressedMetaDataBlock

datatype MetaDataType = kDisplayMessageCommand | kFillMemoryCommand | kResizeWindowCommand

record BlockHeader =
  block_type :: BlockType
  block_size :: u64

datatype header =
    FunctionCallHeader BlockHeader u32 u64
  | CompressedFunctionCallHeader BlockHeader u32 u64 u64
  | FillMemoryCommandHeader BlockHeader MetaDataType u64 u64 u64 u64
  | DisplayMessageCommandHeader BlockHeader MetaDataType u64
  | ResizeWindowCommand BlockHeader MetaDataType u64 u64 u32 u32

fun block_header :: "header \<Rightarrow> BlockHeader" where
  "block_header (FunctionCallHeader bh api_call_id thread_id) = bh"
| "block_header (CompressedFunctionCallHeader bh api_call_id thread_id uncompressed_size) = bh"
| "block_header (FillMemoryCommandHeader bh meta_data_type thread_id memory_id memory_offset memory_size) = bh"
| "block_header (DisplayMessageCommandHeader bh meta_data_type thread_id) = bh"
| "block_header (ResizeWindowCommand bh meta_data_type thread_id surface_id width height) = bh"

definition sizeof_api_call_id :: nat where "sizeof_api_call_id = 4"
definition sizeof_thread_id :: nat where "sizeof_thread_id = 8"
definition sizeof_uncompressed_size :: nat where "sizeof_uncompressed_size = 8"
definition sizeof_meta_data_type :: nat where "sizeof_meta_data_type = 4"
definition sizeof_memory_id :: nat where "sizeof_memory_id = 8"
definition sizeof_memory_offset :: nat where "sizeof_memory_offset = 8"
definition sizeof_memory_size :: nat where "sizeof_memory_size = 8"
definition sizeof_surface_id :: nat where "sizeof_surface_id = 8"
definition sizeof_width :: nat where "sizeof_width = 4"
definition sizeof_height :: nat where "sizeof_height = 4"
definition sizeof_BlockHeader :: nat where "sizeof_BlockHeader = 12"

fun sizeof_header :: "header \<Rightarrow> nat" where
  "sizeof_header (FunctionCallHeader bh c t) =
     sizeof_BlockHeader + sizeof_api_call_id + sizeof_thread_id"
| "sizeof_header (CompressedFunctionCallHeader bh c t u) =
     sizeof_BlockHeader + sizeof_api_call_id + sizeof_thread_id + sizeof_uncompressed_size"
| "sizeof_header (FillMemoryCommandHeader bh m t i off sz) =
     sizeof_BlockHeader + sizeof_meta_data_type + sizeof_thread_id + sizeof_memory_id
       + sizeof_memory_offset + sizeof_memory_size"
| "sizeof_header (DisplayMessageCommandHeader bh m t) =
     sizeof_BlockHeader + sizeof_meta_data_type + sizeof_thread_id"
| "sizeof_header (ResizeWindowCommand bh m t sid w h) =
     sizeof_BlockHeader + sizeof_meta_data_type + sizeof_thread_id + sizeof_surface_id
       + sizeof_width + sizeof_height"

text \<open>
  What a capture file holds, in the order written: the file header with its option pairs,
  blocks (a header and the payload bytes written right after it, under the file lock), and
  the output of the state writer for a state tracker and a thread id.
\<close>

datatype VulkanStateTracker = VulkanStateTracker

datatype written =
    FileHeader u32 u32 u32 "CompressionType list"
  | Block header "byte list"
  | StateSnapshot VulkanStateTracker u64

type_synonym FileOutputStream = "written list"

text \<open>The bytes of a block on disk. The numeric code of each enumerator is a parameter.\<close>

fun le_bytes :: "nat \<Rightarrow> nat \<Rightarrow> byte list" where
  "le_bytes 0 v = []"
| "le_bytes (Suc n) v = of_nat (v mod 256) # le_bytes n (v div 256)"

definition encode_u32 :: "u32 \<Rightarrow> byte list" where
  "encode_u32 v = le_bytes 4 (unat v)"

definition encode_u64 :: "u64 \<Rightarrow> byte list" where
  "encode_u64 v = le_bytes 8 (unat v)"

definition encode_BlockHeader :: "(BlockType \<Rightarrow> u32) \<Rightarrow> BlockHeader \<Rightarrow> byte list" where
  "encode_BlockHeader bt bh = encode_u32 (bt (block_type bh)) @ encode_u64 (block_size bh)"

fun encode_header :: "(BlockType \<Rightarrow> u32) \<Rightarrow> (MetaDataType \<Rightarrow> u32) \<Rightarrow> header \<Rightarrow> byte list" where
  "encode_header bt mt (FunctionCallHeader bh api_call_id thread_id) =
     encode_BlockHeader bt bh @ encode_u32 api_call_id @ encode_u64 thread_id"
| "encode_header bt mt (CompressedFunctionCallHeader bh api_call_id thread_id uncompressed_size) =
     encode_BlockHeader bt bh @ encode_u32 api_call_id @ encode_u64 thread_id
       @ encode_u64 uncompressed_size"
| "encode_header bt mt (FillMemoryCommandHeader bh meta_data_type thread_id memory_id memory_offset memory_size) =
     encode_BlockHeader bt bh @ encode_u32 (mt meta_data_type) @ encode_u64 thread_id
       @ encode_u64 memory_id @ encode_u64 memory_offset @ encode_u64 memory_size"
| "encode_header bt mt (DisplayMessageCommandHeader bh meta_data_type thread_id) =
     encode_BlockHeader bt bh @ encode_u32 (mt meta_data_type) @ encode_u64 thread_id"
| "encode_header bt mt (ResizeWindowCommand bh meta_data_type thread_id surface_id width height) =
     encode_BlockHeader bt bh @ encode_u32 (mt meta_data_type) @ encode_u64 thread_id
       @ encode_u64 surface_id @ encode_u32 width @ encode_u32 height"

definition on_disk :: "(BlockType \<Rightarrow> u32) \<Rightarrow> (MetaDataType \<Rightarrow> u32) \<Rightarrow> header \<Rightarrow> byte list \<Rightarrow> byte list" where
  "on_disk bt mt hdr payload = encode_header bt mt hdr @ payload"

definition bytes_after_block_header ::
  "(BlockType \<Rightarrow> u32) \<Rightarrow> (MetaDataType \<Rightarrow> u32) \<Rightarrow> header \<Rightarrow> byte list \<Rightarrow> byte list" where
  "bytes_after_block_header bt mt hdr payload = drop sizeof_BlockHeader (on_disk bt mt hdr payload)"

subsection \<open>The collaborators\<close>

text \<open>
  Modelled from the spec: the compressor of util/compressor.h, which is not among the
  sources. \<^verbatim>\<open>Compress\<close> takes the source bytes and a destination buffer owned by the
  caller and returns the compressed length, 0 when it failed or did not help. The model
  of a compressor maps the source bytes to the returned length and the contents of the
  destination buffer after the call.
\<close>

type_synonym Compressor = "byte list \<Rightarrow> nat \<times> byte list"

datatype Severity = kInfoSeverity | kWarningSeverity | kErrorSeverity | kFatalSeverity

record DeviceMemoryWrapper =
  handle_id :: u64
  allocation_size :: u64
  mapped_data :: u64
  mapped_offset :: u64
  mapped_size :: u64

text \<open>
  Modelled from the spec: the page guard manager of util/page\_guard\_manager.h, which is
  not among the sources. It tracks regions by memory id; \<^verbatim>\<open>AddMemory\<close> registers a
  region and returns the pointer the application is to use, \<^verbatim>\<open>ProcessMemoryEntry\<close> calls
  the visitor once per dirty sub-range of one region and marks it clean,
  \<^verbatim>\<open>ProcessMemoryEntries\<close> does so for every tracked region, \<^verbatim>\<open>RemoveMemory\<close> ends the
  tracking. Which sub-ranges are dirty is decided by the writes of the application and
  is part of the state here; the pointer that \<^verbatim>\<open>AddMemory\<close> returns is chosen by the
  manager and is an argument (\<open>effective\<close>) here. The model also keeps the list of the
  memory ids for which a harvest was requested (\<open>harvested\<close>), in call order.
\<close>

record MemoryInfo =
  start_address :: u64
  region_size :: nat
  dirty :: "(nat \<times> nat) list"

record PageGuardManager =
  memory_info :: "(u64 \<times> MemoryInfo) list"
  harvested :: "u64 list"

definition AddMemory :: "u64 \<Rightarrow> u64 \<Rightarrow> nat \<Rightarrow> bool \<Rightarrow> u64 \<Rightarrow> PageGuardManager \<Rightarrow> u64 \<times> PageGuardManager" where
  "AddMemory memory_id mapped_memory sz use_shadow effective manager =
     (effective,
      manager\<lparr>memory_info :=
        filter (\<lambda>e. fst e \<noteq> memory_id) (memory_info manager)
          @ [(memory_id, \<lparr>start_address = effective, region_size = sz, dirty = []\<rparr>)]\<rparr>)"

definition RemoveMemory :: "u64 \<Rightarrow> PageGuardManager \<Rightarrow> PageGuardManager" where
  "RemoveMemory memory_id manager =
     manager\<lparr>memory_info := filter (\<lambda>e. fst e \<noteq> memory_id) (memory_info manager)\<rparr>"

definition mark_clean :: "u64 \<Rightarrow> PageGuardManager \<Rightarrow> PageGuardManager" where
  "mark_clean memory_id manager =
     manager\<lparr>memory_info :=
       map (\<lambda>e. if fst e = memory_id then (fst e, (snd e)\<lparr>dirty := []\<rparr>) else e) (memory_info manager)\<rparr>"

fun visit_dirty ::
  "(u64 \<Rightarrow> u64 \<Rightarrow> nat \<Rightarrow> nat \<Rightarrow> 's \<Rightarrow> fault + 's) \<Rightarrow> u64 \<Rightarrow> u64 \<Rightarrow> (nat \<times> nat) list \<Rightarrow> 's \<Rightarrow> fault + 's" where
  "visit_dirty visitor memory_id start [] s = Inr s"
| "visit_dirty visitor memory_id start (d # ds) s =
     (case visitor memory_id start (fst d) (snd d) s of
        Inl e \<Rightarrow> Inl e
      | Inr s' \<Rightarrow> visit_dirty visitor memory_id start ds s')"

definition ProcessMemoryEntry ::
  "u64 \<Rightarrow> (u64 \<Rightarrow> u64 \<Rightarrow> nat \<Rightarrow> nat \<Rightarrow> 's \<Rightarrow> fault + 's) \<Rightarrow> PageGuardManager \<Rightarrow> 's \<Rightarrow> fault + (PageGuardManager \<times> 's)" where
  "ProcessMemoryEntry memory_id visitor manager s =
     (let manager' = manager\<lparr>harvested := harvested manager @ [memory_id]\<rparr>
      in case map_of (memory_info manager) memory_id of
           None \<Rightarrow> Inr (manager', s)
         | Some info \<Rightarrow>
             (case visit_dirty visitor memory_id (start_address info) (dirty info) s of
                Inl e \<Rightarrow> Inl e
              | Inr s' \<Rightarrow> Inr (mark_clean memory_id manager', s')))"

fun visit_entries ::
  "(u64 \<Rightarrow> u64 \<Rightarrow> nat \<Rightarrow> nat \<Rightarrow> 's \<Rightarrow> fault + 's) \<Rightarrow> (u64 \<times> MemoryInfo) list \<Rightarrow> 's \<Rightarrow> fault + 's" where
  "visit_entries visitor [] s = Inr s"
| "visit_entries visitor (e # es) s =
     (case visit_dirty visitor (fst e) (start_address (snd e)) (dirty (snd e)) s of
        Inl err \<Rightarrow> Inl err
      | Inr s' \<Rightarrow> visit_entries visitor es s')"

definition ProcessMemoryEntries ::
  "(u64 \<Rightarrow> u64 \<Rightarrow> nat \<Rightarrow> nat \<Rightarrow> 's \<Rightarrow> fault + 's) \<Rightarrow> PageGuardManager \<Rightarrow> 's \<Rightarrow> fault + (PageGuardManager \<times> 's)" where
  "ProcessMemoryEntries visitor manager s =
     (case visit_entries visitor (memory_info manager) s of
        Inl e \<Rightarrow> Inl e
      | Inr s' \<Rightarrow>
          Inr (manager\<lparr>memory_info := map (\<lambda>e. (fst e, (snd e)\<lparr>dirty := []\<rparr>)) (memory_info manager),
                       harvested := harvested manager @ map fst (memory_info manager)\<rparr>, s'))"

subsection \<open>The state\<close>

text \<open>
  \<^verbatim>\<open>ThreadData\<close> is thread local: the field \<open>thread_data\<close> of the state below is the
  instance of the calling thread. The parameter encoder writes into \<open>parameter_buffer\<close>;
  \<^verbatim>\<open>Reset\<close> empties it.
\<close>

record ThreadData =
  thread_id :: u64
  call_id :: u32
  parameter_buffer :: "byte list"
  compressed_buffer :: "byte list"

text \<open>
  The members of \<^verbatim>\<open>TraceManager\<close>. An owning pointer is an option, \<open>None\<close> when null.
  The set \<^verbatim>\<open>mapped_memory_\<close> of wrapper pointers is a list without duplicates in
  ascending order of address, the order in which a loop visits it. Flushing the stream
  changes nothing that is modelled, so \<open>force_file_flush\<close> is kept but not consulted.
\<close>

record TraceManager =
  file_stream :: "FileOutputStream option"
  compressor :: "Compressor option"
  state_tracker :: "VulkanStateTracker option"
  file_options :: CompressionType
  force_file_flush :: bool
  bytes_written :: u64
  timestamp_filename :: bool
  memory_tracking_mode :: MemoryTrackingMode
  mapped_memory :: "u64 list"
  trim_enabled :: bool
  trim_ranges :: "TrimRange list"
  trim_current_range :: nat
  current_frame :: u32
  capture_mode :: u32

text \<open>
  The trace manager together with what its methods reach through pointers and
  singletons: the thread data of the caller, the device memory wrappers (a handle is the
  address of its wrapper), the page guard manager, the host memory that mapped pointers
  point to (a pointer is the address of a region and stands for the bytes readable from
  it), and the log.
\<close>

record capture_system = TraceManager +
  thread_data :: ThreadData
  wrappers :: "u64 \<rightharpoonup> DeviceMemoryWrapper"
  page_guard :: "PageGuardManager option"
  host_memory :: "u64 \<rightharpoonup> byte list"
  log_output :: "(Severity \<times> string) list"

definition log_message :: "Severity \<Rightarrow> string \<Rightarrow> capture_system \<Rightarrow> capture_system" where
  "log_message severity message s = s\<lparr>log_output := log_output s @ [(severity, message)]\<rparr>"

text \<open>
  The constructor \<^verbatim>\<open>TraceManager::TraceManager\<close> with its member initialisers, in a
  process whose calling thread has the thread data \<open>td\<close>.
\<close>

definition TraceManager_new :: "ThreadData \<Rightarrow> capture_system" where
  "TraceManager_new td =
     \<lparr>file_stream = None, compressor = None, state_tracker = None, file_options = kNone,
      force_file_flush = False, bytes_written = 0, timestamp_filename = True,
      memory_tracking_mode = kPageGuard, mapped_memory = [], trim_enabled = False,
      trim_ranges = [], trim_current_range = 0, current_frame = kFirstFrame,
      capture_mode = kModeWrite,
      thread_data = td, wrappers = Map.empty, page_guard = None, host_memory = Map.empty,
      log_output = []\<rparr>"

definition write_enabled :: "capture_system \<Rightarrow> bool" where
  "write_enabled s \<longleftrightarrow> capture_mode s AND kModeWrite = kModeWrite"

definition track_enabled :: "capture_system \<Rightarrow> bool" where
  "track_enabled s \<longleftrightarrow> capture_mode s AND kModeTrack = kModeTrack"

subsection \<open>Capture files\<close>

text \<open>
  \<^verbatim>\<open>WriteFileHeader\<close>: version 0.0 and one option pair, the compression type. The file
  header structure has 12 bytes, an option pair 8.
\<close>

definition WriteFileHeader :: "capture_system \<Rightarrow> fault + capture_system" where
  "WriteFileHeader s =
     (let option_list = [file_options s]
      in case file_stream s of
           None \<Rightarrow> Inl NullDereference
         | Some f \<Rightarrow>
             Inr (s\<lparr>file_stream := Some (f @ [FileHeader 0 0 (of_nat (length option_list)) option_list]),
                    bytes_written := bytes_written s + 12 + of_nat (length option_list * 8)\<rparr>))"

text \<open>
  \<^verbatim>\<open>CreateCaptureFile\<close>. Whether the new stream is valid is decided by the file system:
  it is the argument \<open>valid\<close>. The name of the file has no further effect and is left
  out, and with it \<^verbatim>\<open>CreateTrimFilename\<close>, which only reads the trim range.
\<close>

definition CreateCaptureFile :: "bool \<Rightarrow> capture_system \<Rightarrow> fault + (bool \<times> capture_system)" where
  "CreateCaptureFile valid s =
     (let s1 = s\<lparr>file_stream := Some []\<rparr>
      in if valid then
           (case WriteFileHeader (log_message kInfoSeverity ''Recording graphics API capture'' s1) of
              Inl e \<Rightarrow> Inl e
            | Inr s2 \<Rightarrow> Inr (True, s2))
         else Inr (False, s1\<lparr>file_stream := None\<rparr>))"

text \<open>
  Modelled from the spec: \<^verbatim>\<open>VulkanStateTracker::WriteState\<close>, which is not among the
  sources, serialises every live tracked object into the stream of the state writer.
\<close>

definition WriteState :: "VulkanStateTracker \<Rightarrow> u64 \<Rightarrow> FileOutputStream \<Rightarrow> FileOutputStream" where
  "WriteState tracker tid f = f @ [StateSnapshot tracker tid]"

definition ActivateTrimming :: "bool \<Rightarrow> capture_system \<Rightarrow> fault + capture_system" where
  "ActivateTrimming valid s =
     (if trim_current_range s < length (trim_ranges s) then
        (case CreateCaptureFile valid s of
           Inl e \<Rightarrow> Inl e
         | Inr (success, s1) \<Rightarrow>
             if success then
               (let s2 = s1\<lparr>capture_mode := capture_mode s1 OR kModeWrite\<rparr>
                in case state_tracker s2 of
                     None \<Rightarrow> Inl NullDereference
                   | Some tracker \<Rightarrow>
                       (case file_stream s2 of
                          None \<Rightarrow> Inl NullDereference
                        | Some f \<Rightarrow>
                            Inr (s2\<lparr>file_stream := Some (WriteState tracker (thread_id (thread_data s2)) f)\<rparr>)))
             else
               Inr ((log_message kFatalSeverity
                       ''Failed to initialize capture for trim range; capture has been disabled'' s1)
                     \<lparr>trim_enabled := False, capture_mode := kModeDisabled\<rparr>))
      else Inl OutOfBounds)"

subsection \<open>Frames (\<^verbatim>\<open>TraceManager::EndFrame\<close>)\<close>

definition EndFrame :: "bool \<Rightarrow> capture_system \<Rightarrow> fault + capture_system" where
  "EndFrame valid s =
     (if trim_enabled s then
        (let s1 = s\<lparr>current_frame := current_frame s + 1\<rparr>
         in if capture_mode s1 AND kModeWrite = kModeWrite then
              (if trim_current_range s1 < length (trim_ranges s1) then
                 (let r = trim_ranges s1 ! trim_current_range s1;
                      r' = r\<lparr>total_frames := total_frames r - 1\<rparr>;
                      s2 = s1\<lparr>trim_ranges := (trim_ranges s1)[trim_current_range s1 := r']\<rparr>
                  in if total_frames r' = 0 then
                       (let s3 = (log_message kInfoSeverity ''Finished recording graphics API capture'' s2)
                                   \<lparr>capture_mode := capture_mode s2 AND NOT kModeWrite,
                                    file_stream := None\<rparr>;
                            s4 = s3\<lparr>trim_current_range := trim_current_range s3 + 1\<rparr>
                        in if length (trim_ranges s4) \<le> trim_current_range s4 then
                             Inr (s4\<lparr>trim_enabled := False, capture_mode := kModeDisabled,
                                     state_tracker := None, compressor := None\<rparr>)
                           else if first (trim_ranges s4 ! trim_current_range s4) = current_frame s4 then
                             ActivateTrimming valid s4
                           else Inr s4)
                     else Inr s2)
               else Inl OutOfBounds)
            else if capture_mode s1 AND kModeTrack = kModeTrack then
              (if trim_current_range s1 < length (trim_ranges s1) then
                 (if first (trim_ranges s1 ! trim_current_range s1) = current_frame s1 then
                    ActivateTrimming valid s1
                  else Inr s1)
               else Inl OutOfBounds)
            else Inr s1)
      else Inr s)"


subsection \<open>\<^verbatim>\<open>TraceManager::Initialize\<close>\<close>

text \<open>
  \<^verbatim>\<open>format::CreateCompressor\<close> is not among the sources: it is the argument
  \<open>CreateCompressor\<close>. \<^verbatim>\<open>PageGuardManager::Create\<close> makes the singleton, with no region
  tracked. The base file name is left out with the file names.
\<close>

definition Initialize ::
  "bool \<Rightarrow> (CompressionType \<Rightarrow> Compressor option) \<Rightarrow> TraceSettings \<Rightarrow> capture_system
     \<Rightarrow> fault + (bool \<times> capture_system)" where
  "Initialize valid CreateCompressor trace_settings s =
     (let s0 = s\<lparr>file_options := capture_file_options trace_settings,
                 timestamp_filename := time_stamp_file trace_settings,
                 memory_tracking_mode := memory_tracking_mode_setting trace_settings,
                 force_file_flush := force_flush trace_settings\<rparr>
      in case (if trim_ranges_setting trace_settings = [] then CreateCaptureFile valid s0
               else
                 (let s1 = s0\<lparr>trim_enabled := True, trim_ranges := trim_ranges_setting trace_settings\<rparr>
                  in if first (trim_ranges s1 ! 0) = current_frame s1 then
                       CreateCaptureFile valid
                         (if 1 < length (trim_ranges s1) then s1\<lparr>capture_mode := kModeWriteAndTrack\<rparr>
                          else s1)
                     else Inr (True, s1\<lparr>capture_mode := kModeTrack\<rparr>))) of
           Inl e \<Rightarrow> Inl e
         | Inr (success1, s2) \<Rightarrow>
             (let s3 = (if success1 then s2\<lparr>compressor := CreateCompressor (file_options s2)\<rparr> else s2);
                  success = (success1 \<and> \<not> (compressor s3 = None \<and> kNone \<noteq> file_options s3))
              in if success then
                   (let s4 = (if memory_tracking_mode s3 = kPageGuard
                              then s3\<lparr>page_guard := Some \<lparr>memory_info = [], harvested = []\<rparr>\<rparr>
                              else s3)
                    in Inr (True,
                            if capture_mode s4 AND kModeTrack = kModeTrack
                            then s4\<lparr>state_tracker := Some VulkanStateTracker\<rparr> else s4))
                 else Inr (False, s3\<lparr>capture_mode := kModeDisabled\<rparr>)))"

subsection \<open>Function call blocks (\<^verbatim>\<open>TraceManager::EndApiCallTrace\<close>)\<close>

text \<open>
  The choice between the two headers: the thread data with the scratch buffer as the
  compressor left it, the header that \<^verbatim>\<open>header_pointer\<close> selects, the buffer that
  \<^verbatim>\<open>data_pointer\<close> points to, and \<^verbatim>\<open>data_size\<close>. \<^verbatim>\<open>size_t\<close> is 64 bits wide, so the
  packet size is stored in the header modulo \<open>2 ^ 64\<close>.
\<close>

definition function_call_block ::
  "Compressor option \<Rightarrow> ThreadData \<Rightarrow> ThreadData \<times> header \<times> byte list \<times> nat" where
  "function_call_block cmp td =
     (let uncompressed_size = length (parameter_buffer td);
          uncompressed_header =
            FunctionCallHeader
              \<lparr>block_type = kFunctionCallBlock,
               block_size = of_nat (sizeof_api_call_id + sizeof_thread_id + uncompressed_size)\<rparr>
              (call_id td) (thread_id td)
      in case cmp of
           None \<Rightarrow> (td, uncompressed_header, parameter_buffer td, uncompressed_size)
         | Some c \<Rightarrow>
             (let compressed_size = fst (c (parameter_buffer td));
                  td' = td\<lparr>compressed_buffer := snd (c (parameter_buffer td))\<rparr>
              in if 0 < compressed_size \<and> compressed_size < uncompressed_size then
                   (td',
                    CompressedFunctionCallHeader
                      \<lparr>block_type = kCompressedFunctionCallBlock,
                       block_size = of_nat (sizeof_api_call_id + sizeof_uncompressed_size
                                             + sizeof_thread_id + compressed_size)\<rparr>
                      (call_id td) (thread_id td) (of_nat uncompressed_size),
                    compressed_buffer td', compressed_size)
                 else (td', uncompressed_header, parameter_buffer td, uncompressed_size)))"

text \<open>
  The argument \<open>encoder\<close> tells whether the encoder pointer is not null; by the
  assertion of the source a non-null encoder is the one of the calling thread. Writing
  \<open>n\<close> bytes from a buffer that holds fewer reads out of bounds.
\<close>

definition EndApiCallTrace :: "bool \<Rightarrow> capture_system \<Rightarrow> fault + capture_system" where
  "EndApiCallTrace encoder s =
     (if capture_mode s AND kModeWrite = kModeWrite then
        (case function_call_block (compressor s) (thread_data s) of
           (td1, hdr, data_buffer, data_size) \<Rightarrow>
             (case file_stream s of
                None \<Rightarrow> Inl NullDereference
              | Some f \<Rightarrow>
                  if data_size \<le> length data_buffer then
                    (if encoder then
                       Inr (s\<lparr>file_stream := Some (f @ [Block hdr (take data_size data_buffer)]),
                              bytes_written :=
                                bytes_written s + of_nat (sizeof_header hdr) + of_nat data_size,
                              thread_data := td1\<lparr>parameter_buffer := []\<rparr>\<rparr>)
                     else Inl NullDereference)
                  else Inl OutOfBounds))
      else if encoder then Inr (s\<lparr>thread_data := (thread_data s)\<lparr>parameter_buffer := []\<rparr>\<rparr>)
      else Inr s)"

subsection \<open>Fill-memory commands (\<^verbatim>\<open>TraceManager::WriteFillMemoryCmd\<close>)\<close>

text \<open>
  Reading \<open>n\<close> bytes at \<open>data + offset\<close>. Reading no byte touches no memory.
\<close>

definition read_memory :: "(u64 \<rightharpoonup> byte list) \<Rightarrow> u64 \<Rightarrow> u64 \<Rightarrow> nat \<Rightarrow> fault + byte list" where
  "read_memory mem data offset n =
     (if n = 0 then Inr []
      else case mem data of
             None \<Rightarrow> Inl (if data = nullptr then NullDereference else OutOfBounds)
           | Some bytes \<Rightarrow>
               if unat offset + n \<le> length bytes then Inr (take n (drop (unat offset) bytes))
               else Inl OutOfBounds)"

text \<open>
  The compression attempt of a fill command: the thread data afterwards, the block type
  and, when the compressed form is used, the scratch buffer and the compressed size.
\<close>

definition fill_compress ::
  "Compressor option \<Rightarrow> (u64 \<rightharpoonup> byte list) \<Rightarrow> u64 \<Rightarrow> u64 \<Rightarrow> nat \<Rightarrow> ThreadData
     \<Rightarrow> fault + (ThreadData \<times> BlockType \<times> (byte list \<times> nat) option)" where
  "fill_compress cmp mem data offset write_size td =
     (case cmp of
        None \<Rightarrow> Inr (td, kMetaDataBlock, None)
      | Some c \<Rightarrow>
          (case read_memory mem data offset write_size of
             Inl e \<Rightarrow> Inl e
           | Inr src \<Rightarrow>
               (let compressed_size = fst (c src);
                    td' = td\<lparr>compressed_buffer := snd (c src)\<rparr>
                in if 0 < compressed_size \<and> compressed_size < write_size then
                     Inr (td', kCompressedMetaDataBlock, Some (compressed_buffer td', compressed_size))
                   else Inr (td', kMetaDataBlock, None))))"

text \<open>
  \<^verbatim>\<open>WriteFillMemoryCmd\<close> writes twice: first the header, with the size already in it,
  then the payload. The first function below is the method up to and including the write
  of the header. It returns \<open>None\<close> when the Write bit is not set, and otherwise the
  state after that write, in which the block of the header is the last of the stream and
  has no payload byte yet, together with the header and the outcome of the compression
  attempt. The payload bytes are read by the second write and follow the header in the
  stream.
\<close>

definition WriteFillMemoryCmd_header ::
  "u64 \<Rightarrow> u64 \<Rightarrow> u64 \<Rightarrow> u64 \<Rightarrow> capture_system
     \<Rightarrow> fault + (capture_system \<times> header \<times> (byte list \<times> nat) option) option" where
  "WriteFillMemoryCmd_header memory_id offset sz data s =
     (if capture_mode s AND kModeWrite = kModeWrite then
        (case fill_compress (compressor s) (host_memory s) data offset (unat sz) (thread_data s) of
           Inl e \<Rightarrow> Inl e
         | Inr (td1, btype, compressed) \<Rightarrow>
             (let write_size = (case compressed of None \<Rightarrow> unat sz | Some (buf, n) \<Rightarrow> n);
                  fill_cmd =
                    FillMemoryCommandHeader
                      \<lparr>block_type = btype,
                       block_size = of_nat (sizeof_meta_data_type + sizeof_thread_id + sizeof_memory_id
                                             + sizeof_memory_offset + sizeof_memory_size + write_size)\<rparr>
                      kFillMemoryCommand (thread_id (thread_data s)) memory_id offset sz
              in case file_stream s of
                   None \<Rightarrow> Inl NullDereference
                 | Some f \<Rightarrow>
                     Inr (Some (s\<lparr>file_stream := Some (f @ [Block fill_cmd []]),
                                  bytes_written := bytes_written s + of_nat (sizeof_header fill_cmd),
                                  thread_data := td1\<rparr>,
                                fill_cmd, compressed))))
      else Inr None)"

definition WriteFillMemoryCmd :: "u64 \<Rightarrow> u64 \<Rightarrow> u64 \<Rightarrow> u64 \<Rightarrow> capture_system \<Rightarrow> fault + capture_system" where
  "WriteFillMemoryCmd memory_id offset sz data s =
     (case WriteFillMemoryCmd_header memory_id offset sz data s of
        Inl e \<Rightarrow> Inl e
      | Inr None \<Rightarrow> Inr s
      | Inr (Some (s1, fill_cmd, compressed)) \<Rightarrow>
          (case (case compressed of
                   None \<Rightarrow> read_memory (host_memory s1) data offset (unat sz)
                 | Some (buf, n) \<Rightarrow>
                     if n \<le> length buf then Inr (take n buf) else Inl OutOfBounds) of
             Inl e \<Rightarrow> Inl e
           | Inr payload \<Rightarrow>
               Inr (s1\<lparr>file_stream :=
                         map_option (\<lambda>f. butlast f @ [Block fill_cmd payload]) (file_stream s1),
                       bytes_written :=
                         bytes_written s1
                           + of_nat (case compressed of None \<Rightarrow> unat sz | Some (buf, n) \<Rightarrow> n)\<rparr>)))"

subsection \<open>The other meta-data commands\<close>

text \<open>
  \<^verbatim>\<open>WriteDisplayMessageCmd\<close>: the message is \<open>None\<close> for a null pointer and otherwise
  the bytes of the string before its terminating zero, whose number is its length.
\<close>

definition WriteDisplayMessageCmd :: "byte list option \<Rightarrow> capture_system \<Rightarrow> fault + capture_system" where
  "WriteDisplayMessageCmd message s =
     (if capture_mode s AND kModeWrite = kModeWrite then
        (case message of
           None \<Rightarrow> Inl NullDereference
         | Some characters \<Rightarrow>
             (let message_length = length characters;
                  message_cmd =
                    DisplayMessageCommandHeader
                      \<lparr>block_type = kMetaDataBlock,
                       block_size = of_nat (sizeof_meta_data_type + sizeof_thread_id + message_length)\<rparr>
                      kDisplayMessageCommand (thread_id (thread_data s))
              in case file_stream s of
                   None \<Rightarrow> Inl NullDereference
                 | Some f \<Rightarrow>
                     Inr (s\<lparr>file_stream := Some (f @ [Block message_cmd characters]),
                            bytes_written :=
                              bytes_written s + of_nat (sizeof_header message_cmd) + of_nat message_length\<rparr>)))
      else Inr s)"

definition WriteResizeWindowCmd :: "u64 \<Rightarrow> u32 \<Rightarrow> u32 \<Rightarrow> capture_system \<Rightarrow> fault + capture_system" where
  "WriteResizeWindowCmd surface_id width height s =
     (if capture_mode s AND kModeWrite = kModeWrite then
        (let resize_cmd =
               ResizeWindowCommand
                 \<lparr>block_type = kMetaDataBlock,
                  block_size = of_nat (sizeof_meta_data_type + sizeof_thread_id + sizeof_surface_id
                                        + sizeof_width + sizeof_height)\<rparr>
                 kResizeWindowCommand (thread_id (thread_data s)) surface_id width height
         in case file_stream s of
              None \<Rightarrow> Inl NullDereference
            | Some f \<Rightarrow>
                Inr (s\<lparr>file_stream := Some (f @ [Block resize_cmd []]),
                       bytes_written := bytes_written s + of_nat (sizeof_header resize_cmd)\<rparr>))
      else Inr s)"

text \<open>The visitor that the page guard hooks pass to the manager.\<close>

definition fill_visitor :: "u64 \<Rightarrow> u64 \<Rightarrow> nat \<Rightarrow> nat \<Rightarrow> capture_system \<Rightarrow> fault + capture_system" where
  "fill_visitor memory_id start offset sz s =
     WriteFillMemoryCmd memory_id (of_nat offset) (of_nat sz) start s"

subsection \<open>Memory hooks\<close>

text \<open>
  A handle is cast to the pointer to its wrapper. Parameters that the source marks as
  unreferenced, and the device and flags that are only handed on, are left out.
\<close>

definition wrapper_at :: "capture_system \<Rightarrow> u64 \<Rightarrow> fault + DeviceMemoryWrapper" where
  "wrapper_at s memory =
     (if memory = nullptr then Inl NullDereference
      else case wrappers s memory of None \<Rightarrow> Inl OutOfBounds | Some w \<Rightarrow> Inr w)"

definition set_mapping :: "u64 \<Rightarrow> u64 \<Rightarrow> u64 \<Rightarrow> u64 \<Rightarrow> capture_system \<Rightarrow> fault + capture_system" where
  "set_mapping memory data offset sz s =
     (case wrapper_at s memory of
        Inl e \<Rightarrow> Inl e
      | Inr w \<Rightarrow>
          Inr (s\<lparr>wrappers := (wrappers s)
                 (memory \<mapsto> w\<lparr>mapped_data := data, mapped_offset := offset, mapped_size := sz\<rparr>)\<rparr>))"

text \<open>
  Modelled from the spec: \<^verbatim>\<open>VulkanStateTracker::TrackMappedMemory\<close>, which is not among
  the sources, records the mapping in the fields of the wrapper when state tracking is on.
\<close>

definition TrackMappedMemory :: "u64 \<Rightarrow> u64 \<Rightarrow> u64 \<Rightarrow> u64 \<Rightarrow> capture_system \<Rightarrow> fault + capture_system" where
  "TrackMappedMemory memory data offset sz s =
     (case state_tracker s of
        None \<Rightarrow> Inl NullDereference
      | Some tracker \<Rightarrow> set_mapping memory data offset sz s)"

definition record_mapping :: "u64 \<Rightarrow> u64 \<Rightarrow> u64 \<Rightarrow> u64 \<Rightarrow> capture_system \<Rightarrow> fault + capture_system" where
  "record_mapping memory data offset sz s =
     (if capture_mode s AND kModeTrack = kModeTrack then TrackMappedMemory memory data offset sz s
      else set_mapping memory data offset sz s)"

definition PostProcess_vkAllocateMemory ::
  "VkResult \<Rightarrow> u64 option \<Rightarrow> u64 option \<Rightarrow> capture_system \<Rightarrow> fault + capture_system" where
  "PostProcess_vkAllocateMemory result pAllocateInfo pMemory s =
     (case (pAllocateInfo, pMemory) of
        (Some allocationSize, Some memory) \<Rightarrow>
          if capture_mode s AND kModeTrack \<noteq> kModeTrack \<and> result = VK_SUCCESS \<and> memory \<noteq> nullptr then
            (case wrapper_at s memory of
               Inl e \<Rightarrow> Inl e
             | Inr w \<Rightarrow> Inr (s\<lparr>wrappers := (wrappers s)(memory \<mapsto> w\<lparr>allocation_size := allocationSize\<rparr>)\<rparr>))
          else Inr s
      | _ \<Rightarrow> Inr s)"

definition set_insert :: "u64 \<Rightarrow> u64 list \<Rightarrow> u64 list" where
  "set_insert x xs = (if x \<in> set xs then xs else insort x xs)"

text \<open>
  \<^verbatim>\<open>PostProcess_vkMapMemory\<close>. \<open>ppData\<close> is \<open>None\<close> for a null \<^verbatim>\<open>ppData\<close> and otherwise
  holds the pointer stored there; the pointer stored there on return is the first
  component of the result.
\<close>

definition PostProcess_vkMapMemory ::
  "VkResult \<Rightarrow> u64 \<Rightarrow> u64 \<Rightarrow> u64 \<Rightarrow> u64 option \<Rightarrow> u64 \<Rightarrow> capture_system
     \<Rightarrow> fault + (u64 option \<times> capture_system)" where
  "PostProcess_vkMapMemory result memory offset sz ppData effective s =
     (case ppData of
        None \<Rightarrow> Inr (ppData, s)
      | Some data \<Rightarrow>
          if result = VK_SUCCESS then
            (case wrapper_at s memory of
               Inl e \<Rightarrow> Inl e
             | Inr wrapper0 \<Rightarrow>
                 if mapped_data wrapper0 = nullptr then
                   (case record_mapping memory data offset sz s of
                      Inl e \<Rightarrow> Inl e
                    | Inr s1 \<Rightarrow>
                        (case wrapper_at s1 memory of
                           Inl e \<Rightarrow> Inl e
                         | Inr wrapper \<Rightarrow>
                             if memory_tracking_mode s1 = kPageGuard then
                               (let sz' = (if sz = VK_WHOLE_SIZE then allocation_size wrapper else sz)
                                in if 0 < sz' then
                                     (case page_guard s1 of
                                        None \<Rightarrow> Inl NullDereference
                                      | Some manager \<Rightarrow>
                                          (case AddMemory (handle_id wrapper) data (unat sz') False effective manager of
                                             (p, manager') \<Rightarrow> Inr (Some p, s1\<lparr>page_guard := Some manager'\<rparr>)))
                                   else Inr (ppData, s1))
                             else if memory_tracking_mode s1 = kUnassisted then
                               Inr (ppData, s1\<lparr>mapped_memory := set_insert memory (mapped_memory s1)\<rparr>)
                             else Inr (ppData, s1)))
                 else
                   Inr (ppData,
                        log_message kWarningSeverity
                          ''VkDeviceMemory object has been mapped more than once'' s))
          else Inr (ppData, s))"

text \<open>A call of \<^verbatim>\<open>ProcessMemoryEntry\<close> on the singleton with the fill visitor.\<close>

definition harvest :: "u64 \<Rightarrow> capture_system \<Rightarrow> fault + capture_system" where
  "harvest memory_id s =
     (case page_guard s of
        None \<Rightarrow> Inl NullDereference
      | Some manager \<Rightarrow>
          (case ProcessMemoryEntry memory_id fill_visitor manager s of
             Inl e \<Rightarrow> Inl e
           | Inr (manager', s') \<Rightarrow> Inr (s'\<lparr>page_guard := Some manager'\<rparr>)))"

record VkMappedMemoryRange =
  range_memory :: u64
  range_offset :: u64
  range_size :: u64

text \<open>The loop of the page guard branch; \<open>current\<close> is \<^verbatim>\<open>current_memory_wrapper\<close>.\<close>

fun flush_page_guard :: "VkMappedMemoryRange list \<Rightarrow> u64 \<Rightarrow> capture_system \<Rightarrow> fault + capture_system" where
  "flush_page_guard [] current s = Inr s"
| "flush_page_guard (r # rs) current s =
     (if range_memory r \<noteq> current then
        (case (if range_memory r \<noteq> nullptr then
                 (case wrapper_at s (range_memory r) of
                    Inl e \<Rightarrow> Inl e
                  | Inr w \<Rightarrow>
                      if mapped_data w \<noteq> nullptr then harvest (handle_id w) s
                      else Inr (log_message kWarningSeverity
                                  ''vkFlushMappedMemoryRanges called for memory that is not mapped'' s))
               else Inr (log_message kWarningSeverity
                           ''vkFlushMappedMemoryRanges called for memory that is not mapped'' s)) of
           Inl e \<Rightarrow> Inl e
         | Inr s' \<Rightarrow> flush_page_guard rs (range_memory r) s')
      else flush_page_guard rs current s)"

text \<open>The loop of the assisted branch.\<close>

fun flush_assisted :: "VkMappedMemoryRange list \<Rightarrow> capture_system \<Rightarrow> fault + capture_system" where
  "flush_assisted [] s = Inr s"
| "flush_assisted (r # rs) s =
     (if range_memory r \<noteq> nullptr then
        (case wrapper_at s (range_memory r) of
           Inl e \<Rightarrow> Inl e
         | Inr w \<Rightarrow>
             if mapped_data w \<noteq> nullptr then
               (case WriteFillMemoryCmd (handle_id w) (range_offset r - mapped_offset w)
                       (if range_size r = VK_WHOLE_SIZE then allocation_size w - range_offset r
                        else range_size r)
                       (mapped_data w) s of
                  Inl e \<Rightarrow> Inl e
                | Inr s' \<Rightarrow> flush_assisted rs s')
             else flush_assisted rs s)
      else flush_assisted rs s)"

text \<open>
  \<^verbatim>\<open>PreProcess_vkFlushMappedMemoryRanges\<close>. The array \<open>pMemoryRanges\<close> is \<open>None\<close> when the
  pointer is null; a count beyond its length reads past its end.
\<close>

definition PreProcess_vkFlushMappedMemoryRanges ::
  "nat \<Rightarrow> VkMappedMemoryRange list option \<Rightarrow> capture_system \<Rightarrow> fault + capture_system" where
  "PreProcess_vkFlushMappedMemoryRanges memoryRangeCount pMemoryRanges s =
     (case pMemoryRanges of
        None \<Rightarrow> Inr s
      | Some ranges \<Rightarrow>
          (case (if memory_tracking_mode s = kPageGuard then
                   flush_page_guard (take memoryRangeCount ranges) nullptr s
                 else if memory_tracking_mode s = kAssisted then
                   flush_assisted (take memoryRangeCount ranges) s
                 else Inr s) of
             Inl e \<Rightarrow> Inl e
           | Inr s' \<Rightarrow>
               if memory_tracking_mode s \<noteq> kUnassisted \<and> length ranges < memoryRangeCount
               then Inl OutOfBounds else Inr s'))"

definition PreProcess_vkUnmapMemory :: "u64 \<Rightarrow> capture_system \<Rightarrow> fault + capture_system" where
  "PreProcess_vkUnmapMemory memory s =
     (case wrapper_at s memory of
        Inl e \<Rightarrow> Inl e
      | Inr wrapper0 \<Rightarrow>
          if mapped_data wrapper0 \<noteq> nullptr then
            (case record_mapping memory nullptr 0 0 s of
               Inl e \<Rightarrow> Inl e
             | Inr s1 \<Rightarrow>
                 (case wrapper_at s1 memory of
                    Inl e \<Rightarrow> Inl e
                  | Inr wrapper \<Rightarrow>
                      if memory_tracking_mode s1 = kPageGuard then
                        (case harvest (handle_id wrapper) s1 of
                           Inl e \<Rightarrow> Inl e
                         | Inr s2 \<Rightarrow>
                             (case page_guard s2 of
                                None \<Rightarrow> Inl NullDereference
                              | Some manager \<Rightarrow>
                                  Inr (s2\<lparr>page_guard := Some (RemoveMemory (handle_id wrapper) manager)\<rparr>)))
                      else if memory_tracking_mode s1 = kUnassisted then
                        (case WriteFillMemoryCmd (handle_id wrapper) 0
                                (if mapped_size wrapper = VK_WHOLE_SIZE then allocation_size wrapper
                                 else mapped_size wrapper)
                                (mapped_data wrapper) s1 of
                           Inl e \<Rightarrow> Inl e
                         | Inr s2 \<Rightarrow> Inr (s2\<lparr>mapped_memory := removeAll memory (mapped_memory s2)\<rparr>))
                      else Inr s1))
          else
            Inr (log_message kWarningSeverity
                   ''Attempting to unmap VkDeviceMemory object that has not been mapped'' s))"

definition PreProcess_vkFreeMemory :: "u64 \<Rightarrow> capture_system \<Rightarrow> fault + capture_system" where
  "PreProcess_vkFreeMemory memory s =
     (if memory_tracking_mode s = kPageGuard then
        (case wrapper_at s memory of
           Inl e \<Rightarrow> Inl e
         | Inr wrapper \<Rightarrow>
             if mapped_data wrapper \<noteq> nullptr then
               (case page_guard s of
                  None \<Rightarrow> Inl NullDereference
                | Some manager \<Rightarrow> Inr (s\<lparr>page_guard := Some (RemoveMemory (handle_id wrapper) manager)\<rparr>))
             else Inr s)
      else Inr s)"

text \<open>The loop of the unassisted branch of \<^verbatim>\<open>PreProcess_vkQueueSubmit\<close>.\<close>

fun submit_unassisted :: "u64 list \<Rightarrow> capture_system \<Rightarrow> fault + capture_system" where
  "submit_unassisted [] s = Inr s"
| "submit_unassisted (m # ms) s =
     (case wrapper_at s m of
        Inl e \<Rightarrow> Inl e
      | Inr wrapper \<Rightarrow>
          (case WriteFillMemoryCmd (handle_id wrapper) 0 (mapped_size wrapper) (mapped_data wrapper) s of
             Inl e \<Rightarrow> Inl e
           | Inr s' \<Rightarrow> submit_unassisted ms s'))"

definition PreProcess_vkQueueSubmit :: "capture_system \<Rightarrow> fault + capture_system" where
  "PreProcess_vkQueueSubmit s =
     (if memory_tracking_mode s = kPageGuard then
        (case page_guard s of
           None \<Rightarrow> Inl NullDereference
         | Some manager \<Rightarrow>
             (case ProcessMemoryEntries fill_visitor manager s of
                Inl e \<Rightarrow> Inl e
              | Inr (manager', s') \<Rightarrow> Inr (s'\<lparr>page_guard := Some manager'\<rparr>)))
      else if memory_tracking_mode s = kUnassisted then submit_unassisted (mapped_memory s) s
      else Inr s)"

subsection \<open>Legal trim ranges\<close>





subsection \<open>Observations\<close>

text \<open>
  What the statements below read off a state: the fill-memory blocks for one memory id in
  the capture stream, the memory ids whose harvest the page guard manager was asked for,
  the id of the wrapper behind a handle when that wrapper is mapped, and the parts of the
  state that writing a block leaves alone.
\<close>

fun is_fill_for :: "u64 \<Rightarrow> written \<Rightarrow> bool" where
  "is_fill_for h (Block (FillMemoryCommandHeader bh m t memory_id off sz) payload) = (memory_id = h)"
| "is_fill_for h w = False"

fun fill_fields :: "written \<Rightarrow> (u64 \<times> u64 \<times> u64) option" where
  "fill_fields (Block (FillMemoryCommandHeader bh m t memory_id memory_offset memory_size) payload) =
     Some (memory_id, memory_offset, memory_size)"
| "fill_fields w = None"

definition fills_for :: "u64 \<Rightarrow> capture_system \<Rightarrow> written list" where
  "fills_for h s = (case file_stream s of None \<Rightarrow> [] | Some f \<Rightarrow> filter (is_fill_for h) f)"

definition harvests_of :: "fault + capture_system \<Rightarrow> u64 list" where
  "harvests_of r =
     (case r of
        Inl e \<Rightarrow> []
      | Inr s \<Rightarrow> (case page_guard s of None \<Rightarrow> [] | Some manager \<Rightarrow> harvested manager))"

definition mapped_handle_id :: "capture_system \<Rightarrow> u64 \<Rightarrow> u64 option" where
  "mapped_handle_id s memory =
     (if memory = nullptr then None
      else case wrappers s memory of
             None \<Rightarrow> None
           | Some w \<Rightarrow> if mapped_data w \<noteq> nullptr then Some (handle_id w) else None)"

definition same_but_stream :: "capture_system \<Rightarrow> capture_system \<Rightarrow> bool" where
  "same_but_stream s s' \<longleftrightarrow>
     wrappers s' = wrappers s \<and> page_guard s' = page_guard s
     \<and> memory_tracking_mode s' = memory_tracking_mode s \<and> log_output s' = log_output s
     \<and> capture_mode s' = capture_mode s \<and> mapped_memory s' = mapped_memory s"

text \<open>
  The blocks of the capture stream; the parts of the state that neither a write to the
  stream nor a harvest nor a log message touches; what the page guard manager is after
  the harvest of a memory id, and the fill commands (memory id, offset, size) that the
  harvest asks for: one for each sub-range of the region that is dirty at that moment.
\<close>

definition blocks_of :: "capture_system \<Rightarrow> written list" where
  "blocks_of s = (case file_stream s of None \<Rightarrow> [] | Some f \<Rightarrow> f)"

definition result_blocks :: "fault + capture_system \<Rightarrow> written list" where
  "result_blocks r = (case r of Inl e \<Rightarrow> [] | Inr s \<Rightarrow> blocks_of s)"

definition header_blocks :: "fault + (capture_system \<times> 'a) option \<Rightarrow> written list" where
  "header_blocks r =
     (case r of Inl e \<Rightarrow> [] | Inr None \<Rightarrow> [] | Inr (Some written) \<Rightarrow> blocks_of (fst written))"

definition configuration_kept :: "capture_system \<Rightarrow> capture_system \<Rightarrow> bool" where
  "configuration_kept s s' \<longleftrightarrow>
     compressor s' = compressor s \<and> state_tracker s' = state_tracker s
     \<and> file_options s' = file_options s \<and> force_file_flush s' = force_file_flush s
     \<and> timestamp_filename s' = timestamp_filename s
     \<and> memory_tracking_mode s' = memory_tracking_mode s \<and> mapped_memory s' = mapped_memory s
     \<and> trim_enabled s' = trim_enabled s \<and> trim_ranges s' = trim_ranges s
     \<and> trim_current_range s' = trim_current_range s \<and> current_frame s' = current_frame s
     \<and> capture_mode s' = capture_mode s \<and> wrappers s' = wrappers s
     \<and> host_memory s' = host_memory s"

definition harvested_manager :: "u64 \<Rightarrow> PageGuardManager \<Rightarrow> PageGuardManager" where
  "harvested_manager memory_id manager =
     (case map_of (memory_info manager) memory_id of
        None \<Rightarrow> manager\<lparr>harvested := harvested manager @ [memory_id]\<rparr>
      | Some info \<Rightarrow> mark_clean memory_id (manager\<lparr>harvested := harvested manager @ [memory_id]\<rparr>))"

definition dirty_fills :: "PageGuardManager \<Rightarrow> u64 \<Rightarrow> (u64 \<times> u64 \<times> u64) option list" where
  "dirty_fills manager memory_id =
     (case map_of (memory_info manager) memory_id of
        None \<Rightarrow> []
      | Some info \<Rightarrow> map (\<lambda>d. Some (memory_id, of_nat (fst d), of_nat (snd d))) (dirty info))"

fun harvest_fills :: "PageGuardManager \<Rightarrow> u64 list \<Rightarrow> (u64 \<times> u64 \<times> u64) option list" where
  "harvest_fills manager [] = []"
| "harvest_fills manager (i # ids) = dirty_fills manager i @ harvest_fills (harvested_manager i manager) ids"

text \<open>
  The arguments (memory id, offset, size, start address of the region) of the calls of
  \<^verbatim>\<open>WriteFillMemoryCmd\<close> that the harvest of a memory id makes through the visitor, and
  such a list of calls made one after the other.
\<close>

definition dirty_calls :: "PageGuardManager \<Rightarrow> u64 \<Rightarrow> (u64 \<times> u64 \<times> u64 \<times> u64) list" where
  "dirty_calls manager memory_id =
     (case map_of (memory_info manager) memory_id of
        None \<Rightarrow> []
      | Some info \<Rightarrow>
          map (\<lambda>d. (memory_id, of_nat (fst d), of_nat (snd d), start_address info)) (dirty info))"

fun harvest_calls :: "PageGuardManager \<Rightarrow> u64 list \<Rightarrow> (u64 \<times> u64 \<times> u64 \<times> u64) list" where
  "harvest_calls manager [] = []"
| "harvest_calls manager (i # ids) = dirty_calls manager i @ harvest_calls (harvested_manager i manager) ids"

fun WriteFillMemoryCmds :: "(u64 \<times> u64 \<times> u64 \<times> u64) list \<Rightarrow> capture_system \<Rightarrow> fault + capture_system" where
  "WriteFillMemoryCmds [] s = Inr s"
| "WriteFillMemoryCmds ((memory_id, offset, sz, data) # calls) s =
     (case WriteFillMemoryCmd memory_id offset sz data s of
        Inl e \<Rightarrow> Inl e
      | Inr s' \<Rightarrow> WriteFillMemoryCmds calls s')"

fun size_and_following :: "written \<Rightarrow> nat \<times> nat" where
  "size_and_following (Block hdr payload) =
     (unat (block_size (block_header hdr)), sizeof_header hdr - sizeof_BlockHeader + length payload)"
| "size_and_following w = (0, 0)"

definition not_mapped_warning :: "Severity \<times> string" where
  "not_mapped_warning = (kWarningSeverity, ''vkFlushMappedMemoryRanges called for memory that is not mapped'')"

subsection \<open>Example states\<close>

definition example_thread :: ThreadData where
  "example_thread = \<lparr>thread_id = 1, call_id = 7, parameter_buffer = [1, 2, 3, 4], compressed_buffer = []\<rparr>"

definition example_compressor :: Compressor where
  "example_compressor src =
     (if 2 \<le> length src then (length src div 2, take (length src div 2) src) else (0, []))"

definition example_write :: capture_system where
  "example_write =
     (TraceManager_new example_thread)\<lparr>file_stream := Some [], compressor := Some example_compressor,
        host_memory := [4096 \<mapsto> [9, 8, 7, 6]]\<rparr>"

definition example_page_guard :: capture_system where
  "example_page_guard =
     (TraceManager_new example_thread)
       \<lparr>file_stream := Some [],
        wrappers :=
          [16 \<mapsto> \<lparr>handle_id = 1, allocation_size = 4, mapped_data = 4096, mapped_offset = 0, mapped_size = 4\<rparr>,
           32 \<mapsto> \<lparr>handle_id = 2, allocation_size = 2, mapped_data = 8192, mapped_offset = 0, mapped_size = 2\<rparr>,
           48 \<mapsto> \<lparr>handle_id = 3, allocation_size = 0, mapped_data = 0, mapped_offset = 0, mapped_size = 0\<rparr>],
        page_guard :=
          Some \<lparr>memory_info =
                  [(1, \<lparr>start_address = 4096, region_size = 4, dirty = [(1, 2)]\<rparr>),
                   (2, \<lparr>start_address = 8192, region_size = 2, dirty = []\<rparr>)],
                harvested = []\<rparr>,
        host_memory := [4096 \<mapsto> [9, 8, 7, 6], 8192 \<mapsto> [5, 4]]\<rparr>"

definition example_range :: "u64 \<Rightarrow> VkMappedMemoryRange" where
  "example_range memory = \<lparr>range_memory = memory, range_offset = 0, range_size = VK_WHOLE_SIZE\<rparr>"

definition example_zero_mapped :: capture_system where
  "example_zero_mapped =
     example_page_guard\<lparr>wrappers := (wrappers example_page_guard)
        (48 \<mapsto> \<lparr>handle_id = 3, allocation_size = 0, mapped_data = 12288, mapped_offset = 0,
                  mapped_size = VK_WHOLE_SIZE\<rparr>)\<rparr>"

text \<open>Running one hook after another, stopping at the first fault.\<close>

definition then_do :: "fault + 'a \<Rightarrow> ('a \<Rightarrow> fault + 'b) \<Rightarrow> fault + 'b" where
  "then_do r f = (case r of Inl e \<Rightarrow> Inl e | Inr v \<Rightarrow> f v)"

text \<open>
  A process in unassisted mode that allocates 1024 bytes of device memory, maps them with
  the size \<open>sz\<close> at the host address 4096, and submits to a queue.
\<close>

definition example_unassisted :: capture_system where
  "example_unassisted =
     (TraceManager_new example_thread)
       \<lparr>file_stream := Some [], memory_tracking_mode := kUnassisted,
        wrappers := [16 \<mapsto> \<lparr>handle_id = 1, allocation_size = 0, mapped_data = 0,
                             mapped_offset = 0, mapped_size = 0\<rparr>],
        host_memory := [4096 \<mapsto> replicate 1024 0]\<rparr>"

definition submit_after_map :: "u64 \<Rightarrow> fault + capture_system" where
  "submit_after_map sz =
     then_do (PostProcess_vkAllocateMemory VK_SUCCESS (Some 1024) (Some 16) example_unassisted)
       (\<lambda>s1. then_do (PostProcess_vkMapMemory VK_SUCCESS 16 0 sz (Some 4096) 4096 s1)
          (\<lambda>r. PreProcess_vkQueueSubmit (snd r)))"

text \<open>
  The same process up to the map, followed by \<open>f\<close>; and the first write of the fill
  command that the unassisted queue submit issues for the wrapper behind a handle.
\<close>

definition map_then :: "u64 \<Rightarrow> (capture_system \<Rightarrow> fault + 'a) \<Rightarrow> fault + 'a" where
  "map_then sz f =
     then_do (PostProcess_vkAllocateMemory VK_SUCCESS (Some 1024) (Some 16) example_unassisted)
       (\<lambda>s1. then_do (PostProcess_vkMapMemory VK_SUCCESS 16 0 sz (Some 4096) 4096 s1)
          (\<lambda>r. f (snd r)))"

definition submit_header ::
  "u64 \<Rightarrow> capture_system
     \<Rightarrow> fault + (capture_system \<times> header \<times> (byte list \<times> nat) option) option" where
  "submit_header memory s =
     then_do (wrapper_at s memory)
       (\<lambda>wrapper. WriteFillMemoryCmd_header (handle_id wrapper) 0 (mapped_size wrapper)
                    (mapped_data wrapper) s)"

text \<open>
  A process whose settings ask for compression and for the given trim ranges, at the end
  of its first frame; \<open>valid\<close> tells whether a capture file opened then is valid.
\<close>

definition example_settings :: "TrimRange list \<Rightarrow> TraceSettings" where
  "example_settings ranges =
     \<lparr>capture_file_options = kAlgorithm 1, time_stamp_file = False,
      memory_tracking_mode_setting = kPageGuard, force_flush = False,
      trim_ranges_setting = ranges\<rparr>"

definition example_CreateCompressor :: "CompressionType \<Rightarrow> Compressor option" where
  "example_CreateCompressor t = (case t of kNone \<Rightarrow> None | kAlgorithm n \<Rightarrow> Some example_compressor)"

definition owned_resources :: "fault + capture_system \<Rightarrow> (u32 \<times> bool \<times> bool \<times> bool \<times> bool) option" where
  "owned_resources r =
     (case r of
        Inl e \<Rightarrow> None
      | Inr s \<Rightarrow> Some (capture_mode s, trim_enabled s, file_stream s \<noteq> None,
                       compressor s \<noteq> None, state_tracker s \<noteq> None))"

definition first_EndFrame :: "bool \<Rightarrow> TrimRange list \<Rightarrow> fault + capture_system" where
  "first_EndFrame valid ranges =
     then_do (Initialize True example_CreateCompressor (example_settings ranges)
                (TraceManager_new example_thread))
       (\<lambda>r. EndFrame valid (snd r))"

subsection \<open>Invariants used in the proofs\<close>

text \<open>
  The thread id statics after the distinct threads \<open>ds\<close> have been seen, in this order:
  the \<open>i\<close>-th of them has the id \<open>i + 1\<close>, and the counter is their number.
\<close>

definition ids_inv :: "u64 list \<Rightarrow> ThreadIds \<Rightarrow> bool" where
  "ids_inv ds st \<longleftrightarrow>
     distinct ds \<and> length ds < 2 ^ 64 \<and> thread_count st = of_nat (length ds) \<and>
     dom (id_map st) = set ds \<and>
     (\<forall>i < length ds. id_map st (ds ! i) = Some (of_nat (Suc i)))"


section \<open>The two writes of a fill-memory command\<close>

text \<open>
  When \<^verbatim>\<open>WriteFillMemoryCmd\<close> returns, header and payload have been written as one
  block.
\<close>

lemma WriteFillMemoryCmd_unfold:
  "WriteFillMemoryCmd memory_id offset sz data s =
     (if capture_mode s AND kModeWrite = kModeWrite then
        (case fill_compress (compressor s) (host_memory s) data offset (unat sz) (thread_data s) of
           Inl e \<Rightarrow> Inl e
         | Inr (td1, btype, compressed) \<Rightarrow>
             (let write_size = (case compressed of None \<Rightarrow> unat sz | Some (buf, n) \<Rightarrow> n);
                  fill_cmd =
                    FillMemoryCommandHeader
                      \<lparr>block_type = btype,
                       block_size = of_nat (sizeof_meta_data_type + sizeof_thread_id + sizeof_memory_id
                                             + sizeof_memory_offset + sizeof_memory_size + write_size)\<rparr>
                      kFillMemoryCommand (thread_id (thread_data s)) memory_id offset sz
              in case file_stream s of
                   None \<Rightarrow> Inl NullDereference
                 | Some f \<Rightarrow>
                     (case (case compressed of
                              None \<Rightarrow> read_memory (host_memory s) data offset (unat sz)
                            | Some (buf, n) \<Rightarrow>
                                if n \<le> length buf then Inr (take n buf) else Inl OutOfBounds) of
                        Inl e \<Rightarrow> Inl e
                      | Inr payload \<Rightarrow>
                          Inr (s\<lparr>file_stream := Some (f @ [Block fill_cmd payload]),
                                 bytes_written :=
                                   bytes_written s + of_nat (sizeof_header fill_cmd) + of_nat write_size,
                                 thread_data := td1\<rparr>))))
      else Inr s)"
  by (auto simp: WriteFillMemoryCmd_def WriteFillMemoryCmd_header_def Let_def
      split: sum.splits option.splits prod.splits)

section \<open>Thread ids\<close>

lemma ids_inv_init: "ids_inv [] ThreadIds_init"
  by (simp add: ids_inv_def ThreadIds_init_def)

lemma GetThreadId_known:
  assumes "ids_inv ds st" "tid \<in> set ds"
  shows "snd (GetThreadId tid st) = st" "id_map st tid = Some (fst (GetThreadId tid st))"
  using assms by (auto simp: ids_inv_def GetThreadId_def split: option.splits)

lemma GetThreadId_new:
  assumes "ids_inv ds st" "tid \<notin> set ds" "Suc (length ds) < 2 ^ 64"
  shows "ids_inv (ds @ [tid]) (snd (GetThreadId tid st))"
    "id_map (snd (GetThreadId tid st)) tid = Some (fst (GetThreadId tid st))"
    "\<forall>t \<in> set ds. id_map (snd (GetThreadId tid st)) t = id_map st t"
proof -
  from assms have n: "id_map st tid = None" by (auto simp: ids_inv_def)
  have upd: "snd (GetThreadId tid st) =
      st\<lparr>thread_count := of_nat (Suc (length ds)), id_map := (id_map st)(tid \<mapsto> of_nat (Suc (length ds)))\<rparr>"
    using assms(1) n by (simp add: GetThreadId_def Let_def ids_inv_def add.commute)
  have "id_map (snd (GetThreadId tid st)) ((ds @ [tid]) ! i) = Some (of_nat (Suc i))"
    if "i < length (ds @ [tid])" for i
  proof (cases "i < length ds")
    case True
    then have "ds ! i \<noteq> tid" using assms(2) by auto
    then show ?thesis using True assms(1) by (simp add: upd nth_append ids_inv_def)
  next
    case False
    then have "i = length ds" using that by simp
    then show ?thesis by (simp add: upd)
  qed
  then show "ids_inv (ds @ [tid]) (snd (GetThreadId tid st))"
    using assms by (simp add: ids_inv_def upd)
  show "id_map (snd (GetThreadId tid st)) tid = Some (fst (GetThreadId tid st))"
    using n by (simp add: GetThreadId_def Let_def)
  show "\<forall>t \<in> set ds. id_map (snd (GetThreadId tid st)) t = id_map st t"
    using assms(2) by (auto simp: upd)
qed

lemma length_first_seen_mono: "length seen \<le> length (first_seen seen xs)"
proof (induction xs arbitrary: seen)
  case Nil
  show ?case by simp
next
  case (Cons x xs)
  have "length seen \<le> length (if x \<in> set seen then seen else seen @ [x])" by simp
  also have "\<dots> \<le> length (first_seen (if x \<in> set seen then seen else seen @ [x]) xs)"
    by (rule Cons.IH)
  finally show ?case by simp
qed

lemma set_first_seen: "set (first_seen seen xs) = set seen \<union> set xs"
  by (induction xs arbitrary: seen) auto

lemma distinct_first_seen: "distinct seen \<Longrightarrow> distinct (first_seen seen xs)"
  by (induction xs arbitrary: seen) auto

lemma length_first_seen_card: "length (first_seen [] xs) = card (set xs)"
  using distinct_card [of "first_seen [] xs"] by (simp add: set_first_seen distinct_first_seen)

lemma GetThreadIds_inv:
  assumes "ids_inv ds st" "length (first_seen ds tids) < 2 ^ 64"
  shows "ids_inv (first_seen ds tids) (snd (GetThreadIds tids st)) \<and>
         length (fst (GetThreadIds tids st)) = length tids \<and>
         (\<forall>i < length tids. id_map (snd (GetThreadIds tids st)) (tids ! i) = Some (fst (GetThreadIds tids st) ! i)) \<and>
         (\<forall>t \<in> set ds. id_map (snd (GetThreadIds tids st)) t = id_map st t)"
  using assms
proof (induction tids arbitrary: ds st)
  case Nil
  then show ?case by simp
next
  case (Cons tid tids)
  define ds' where "ds' = (if tid \<in> set ds then ds else ds @ [tid])"
  define st' where "st' = snd (GetThreadId tid st)"
  define r where "r = fst (GetThreadId tid st)"
  have fs: "first_seen ds (tid # tids) = first_seen ds' tids" by (simp add: ds'_def)
  have len: "length ds' < 2 ^ 64"
    using length_first_seen_mono [of ds' tids] Cons.prems(2) fs by simp
  have step: "ids_inv ds' st' \<and> id_map st' tid = Some r \<and> (\<forall>t \<in> set ds. id_map st' t = id_map st t)"
  proof (cases "tid \<in> set ds")
    case True
    then show ?thesis
      using GetThreadId_known [OF Cons.prems(1) True] Cons.prems(1)
      by (simp add: ds'_def st'_def r_def)
  next
    case False
    with len have "Suc (length ds) < 2 ^ 64" by (simp add: ds'_def)
    from GetThreadId_new [OF Cons.prems(1) False this] False
    show ?thesis by (simp add: ds'_def st'_def r_def)
  qed
  have tid_in: "tid \<in> set ds'" by (simp add: ds'_def)
  have sub: "set ds \<subseteq> set ds'" by (auto simp: ds'_def)
  from Cons.IH [of ds' st'] step len Cons.prems(2) fs
  have IH: "ids_inv (first_seen ds' tids) (snd (GetThreadIds tids st'))"
    "length (fst (GetThreadIds tids st')) = length tids"
    "\<forall>i < length tids. id_map (snd (GetThreadIds tids st')) (tids ! i) = Some (fst (GetThreadIds tids st') ! i)"
    "\<forall>t \<in> set ds'. id_map (snd (GetThreadIds tids st')) t = id_map st' t"
    by simp_all
  have unfold: "GetThreadIds (tid # tids) st = (r # fst (GetThreadIds tids st'), snd (GetThreadIds tids st'))"
    by (simp add: r_def st'_def split_beta Let_def)
  have "id_map (snd (GetThreadIds tids st')) ((tid # tids) ! i) = Some ((r # fst (GetThreadIds tids st')) ! i)"
    if "i < length (tid # tids)" for i
  proof (cases i)
    case 0
    then show ?thesis using IH(4) tid_in step by simp
  next
    case (Suc j)
    then show ?thesis using IH(3) that by simp
  qed
  moreover have "\<forall>t \<in> set ds. id_map (snd (GetThreadIds tids st')) t = id_map st t"
    using IH(4) sub step by auto
  ultimately show ?case
    unfolding unfold fs fst_conv snd_conv using IH(1,2) by simp
qed

lemma of_nat_Suc_inj_u64:
  assumes "i < 2 ^ 64 - 1" "j < 2 ^ 64 - 1" "(of_nat (Suc i) :: u64) = of_nat (Suc j)"
  shows "i = j"
proof -
  have "unat (of_nat (Suc i) :: u64) = Suc i" "unat (of_nat (Suc j) :: u64) = Suc j"
    using assms(1,2) by (simp_all add: unat_of_nat del: of_nat_Suc)
  with assms(3) show ?thesis by simp
qed

lemma of_nat_Suc_nonzero_u64:
  assumes "i < 2 ^ 64 - 1"
  shows "(of_nat (Suc i) :: u64) \<noteq> 0"
proof -
  have "unat (of_nat (Suc i) :: u64) = Suc i"
    using assms by (simp add: unat_of_nat del: of_nat_Suc)
  then show ?thesis by (metis Zero_not_Suc unat_0)
qed

text \<open>
  Claim C8. The mapping from OS thread ids to logical thread ids is injective and stable:
  in any sequence of calls of \<^verbatim>\<open>GetThreadId\<close> (by fewer than \<open>2 ^ 64\<close> distinct threads,
  from the initial statics) two calls return the same id exactly when they come from the
  same thread, the threads in order of first observation hold the ids 1, 2, 3, ..., a
  further call by any of them returns its id again and changes nothing, and 0 is never
  returned.
\<close>

theorem GetThreadId_injective_stable_dense:
  assumes "card (set tids) < 2 ^ 64"
    and "GetThreadIds tids ThreadIds_init = (ids, st)"
  shows "length ids = length tids
    \<and> (\<forall>i < length tids. \<forall>j < length tids. (ids ! i = ids ! j) = (tids ! i = tids ! j))
    \<and> (\<forall>k < length (first_seen [] tids). id_map st (first_seen [] tids ! k) = Some (of_nat (k + 1)))
    \<and> (\<forall>i < length tids. id_map st (tids ! i) = Some (ids ! i) \<and> GetThreadId (tids ! i) st = (ids ! i, st))
    \<and> 0 \<notin> set ids"
proof -
  let ?ds = "first_seen [] tids"
  have len: "length ?ds < 2 ^ 64" using assms(1) by (simp add: length_first_seen_card)
  from GetThreadIds_inv [OF ids_inv_init, of tids] len assms(2)
  have inv: "ids_inv ?ds st" and L: "length ids = length tids"
    and rec: "\<forall>i < length tids. id_map st (tids ! i) = Some (ids ! i)"
    by simp_all
  have dense: "\<forall>k < length ?ds. id_map st (?ds ! k) = Some (of_nat (k + 1))"
    using inv by (simp add: ids_inv_def)
  have pos: "\<exists>k < length ?ds. tids ! i = ?ds ! k \<and> ids ! i = of_nat (Suc k)" if "i < length tids" for i
  proof -
    have "tids ! i \<in> set ?ds" using that by (simp add: set_first_seen)
    then obtain k where k: "k < length ?ds" "?ds ! k = tids ! i" by (auto simp: in_set_conv_nth)
    with dense rec that have "ids ! i = of_nat (Suc k)" by auto
    with k show ?thesis by auto
  qed
  have inj: "(ids ! i = ids ! j) = (tids ! i = tids ! j)" if "i < length tids" "j < length tids" for i j
  proof
    assume eq: "ids ! i = ids ! j"
    from pos [OF that(1)] obtain k where k: "k < length ?ds" "tids ! i = ?ds ! k" "ids ! i = of_nat (Suc k)" by auto
    from pos [OF that(2)] obtain l where l: "l < length ?ds" "tids ! j = ?ds ! l" "ids ! j = of_nat (Suc l)" by auto
    have "k = l"
      using of_nat_Suc_inj_u64 [of k l] k l len eq by simp
    with k l show "tids ! i = tids ! j" by simp
  next
    assume "tids ! i = tids ! j"
    with rec that show "ids ! i = ids ! j" by (metis option.inject)
  qed
  have nz: "0 \<notin> set ids"
  proof
    assume "0 \<in> set ids"
    then obtain i where i: "i < length tids" "ids ! i = 0" using L by (auto simp: in_set_conv_nth)
    from pos [OF i(1)] obtain k where "k < length ?ds" "ids ! i = of_nat (Suc k)" by auto
    with of_nat_Suc_nonzero_u64 [of k] len i show False by simp
  qed
  have again: "GetThreadId (tids ! i) st = (ids ! i, st)" if "i < length tids" for i
    using rec that by (simp add: GetThreadId_def)
  show ?thesis using L inj dense rec again nz by simp
qed

theorem GetThreadId_injective_stable_dense_witness:
  "card (set [7, 3, 7, 9 :: u64]) < 2 ^ 64
   \<and> GetThreadIds [7, 3, 7, 9] ThreadIds_init
       = ([1, 2, 1, 3], \<lparr>thread_count = 3, id_map = [7 \<mapsto> 1, 3 \<mapsto> 2, 9 \<mapsto> 3]\<rparr>)
   \<and> first_seen [] [7, 3, 7, 9 :: u64] = [7, 3, 9]
   \<and> (0::u64) \<notin> set [1, 2, 1, 3]"
proof -
  have c: "card (set [7, 3, 7, 9 :: u64]) < 2 ^ 64"
    using card_length [of "[7, 3, 7, 9 :: u64]"] by simp
  have r: "GetThreadIds [7, 3, 7, 9] ThreadIds_init
       = ([1, 2, 1, 3], \<lparr>thread_count = 3, id_map = [7 \<mapsto> 1, 3 \<mapsto> 2, 9 \<mapsto> 3]\<rparr>)"
    by (simp add: GetThreadId_def ThreadIds_init_def Let_def)
  have f: "first_seen [] [7, 3, 7, 9 :: u64] = [7, 3, 9]" by simp
  from GetThreadId_injective_stable_dense [OF c r] c r f show ?thesis by simp
qed

section \<open>Frames without trimming\<close>

text \<open>
  Claim C10. When trimming is not enabled (no trim range was configured, or trimming has
  been disabled since), \<^verbatim>\<open>EndFrame\<close> changes nothing: the frame counter, the capture
  mode, the file stream, the compressor and the state tracker, like every other part of
  the state, are as before.
\<close>

theorem EndFrame_without_trim_is_noop:
  assumes "\<not> trim_enabled s"
  shows "EndFrame valid s = Inr s"
  using assms by (simp add: EndFrame_def)

theorem EndFrame_without_trim_is_noop_witness:
  "\<not> trim_enabled (TraceManager_new example_thread)
   \<and> EndFrame True (TraceManager_new example_thread) = Inr (TraceManager_new example_thread)"
proof -
  have h: "\<not> trim_enabled (TraceManager_new example_thread)"
    by (simp add: TraceManager_new_def)
  from EndFrame_without_trim_is_noop [OF h] h show ?thesis by simp
qed

section \<open>Function call blocks\<close>

lemma length_le_bytes [simp]: "length (le_bytes n v) = n"
  by (induction n arbitrary: v) auto

lemma length_encode_header: "length (encode_header bt mt hdr) = sizeof_header hdr"
  by (cases hdr)
    (simp_all add: encode_BlockHeader_def encode_u32_def encode_u64_def sizeof_BlockHeader_def
      sizeof_api_call_id_def sizeof_thread_id_def sizeof_uncompressed_size_def
      sizeof_meta_data_type_def sizeof_memory_id_def sizeof_memory_offset_def sizeof_memory_size_def
      sizeof_surface_id_def sizeof_width_def sizeof_height_def)

lemma sizeof_header_ge: "sizeof_BlockHeader \<le> sizeof_header hdr"
  by (cases hdr) simp_all

lemma length_bytes_after_block_header:
  "length (bytes_after_block_header bt mt hdr payload) = sizeof_header hdr - sizeof_BlockHeader + length payload"
  using sizeof_header_ge [of hdr]
  by (simp add: bytes_after_block_header_def on_disk_def length_encode_header)

lemma size_and_following_bytes:
  "size_and_following (Block hdr payload)
     = (unat (block_size (block_header hdr)), length (bytes_after_block_header bt mt hdr payload))"
  by (simp add: length_bytes_after_block_header)

lemma unat_of_nat_u64: "n < 2 ^ 64 \<Longrightarrow> unat (of_nat n :: u64) = n"
  by (simp add: unat_of_nat)

text \<open>
  Claim C1. For a call ended by \<^verbatim>\<open>EndApiCallTrace\<close> while the Write bit is set (with
  an open file stream, and a compressor that returns no more than its buffer holds), one
  block is appended, and it is the compressed variant, carrying the uncompressed size
  \<open>U\<close> and the first \<open>C\<close> bytes of the scratch buffer, exactly when a compressor is
  installed and its returned length \<open>C\<close> satisfies \<open>0 < C < U\<close>; in every other case
  (\<open>C = 0\<close>, \<open>C \<ge> U\<close>, no compressor) it is the uncompressed variant with the original
  parameter bytes.
\<close>

theorem EndApiCallTrace_compressed_iff:
  assumes "capture_mode s AND kModeWrite = kModeWrite"
    and "file_stream s = Some f"
    and "\<forall>c. compressor s = Some c \<longrightarrow>
           fst (c (parameter_buffer (thread_data s))) \<le> length (snd (c (parameter_buffer (thread_data s))))"
  shows "\<exists>s' hdr payload.
      EndApiCallTrace True s = Inr s' \<and> file_stream s' = Some (f @ [Block hdr payload])
    \<and> (block_type (block_header hdr) = kCompressedFunctionCallBlock
         \<longleftrightarrow> (\<exists>c. compressor s = Some c
                \<and> 0 < fst (c (parameter_buffer (thread_data s)))
                \<and> fst (c (parameter_buffer (thread_data s))) < length (parameter_buffer (thread_data s))))
    \<and> (\<forall>c. compressor s = Some c
           \<and> 0 < fst (c (parameter_buffer (thread_data s)))
           \<and> fst (c (parameter_buffer (thread_data s))) < length (parameter_buffer (thread_data s))
         \<longrightarrow> hdr = CompressedFunctionCallHeader
                    \<lparr>block_type = kCompressedFunctionCallBlock,
                     block_size = of_nat (20 + fst (c (parameter_buffer (thread_data s))))\<rparr>
                    (call_id (thread_data s)) (thread_id (thread_data s))
                    (of_nat (length (parameter_buffer (thread_data s))))
             \<and> payload = take (fst (c (parameter_buffer (thread_data s))))
                               (snd (c (parameter_buffer (thread_data s)))))
    \<and> (block_type (block_header hdr) \<noteq> kCompressedFunctionCallBlock
         \<longrightarrow> hdr = FunctionCallHeader
                    \<lparr>block_type = kFunctionCallBlock,
                     block_size = of_nat (12 + length (parameter_buffer (thread_data s)))\<rparr>
                    (call_id (thread_data s)) (thread_id (thread_data s))
             \<and> payload = parameter_buffer (thread_data s))"
proof (cases "compressor s")
  case None
  then show ?thesis
    using assms(1,2)
    by (simp add: EndApiCallTrace_def function_call_block_def Let_def
        sizeof_api_call_id_def sizeof_thread_id_def)
next
  case (Some c)
  let ?p = "parameter_buffer (thread_data s)"
  from assms(3) Some have bound: "fst (c ?p) \<le> length (snd (c ?p))" by simp
  show ?thesis
  proof (cases "0 < fst (c ?p) \<and> fst (c ?p) < length ?p")
    case True
    then show ?thesis
      using assms(1,2) Some bound
      by (simp add: EndApiCallTrace_def function_call_block_def Let_def
          sizeof_api_call_id_def sizeof_thread_id_def sizeof_uncompressed_size_def)
  next
    case False
    then show ?thesis
      using assms(1,2) Some
      by (auto simp: EndApiCallTrace_def function_call_block_def Let_def
          sizeof_api_call_id_def sizeof_thread_id_def)
  qed
qed

theorem EndApiCallTrace_compressed_iff_witness:
  "capture_mode example_write AND kModeWrite = kModeWrite
   \<and> file_stream example_write = Some []
   \<and> (\<exists>s'. EndApiCallTrace True example_write = Inr s'
         \<and> file_stream s' =
             Some [Block (CompressedFunctionCallHeader
                            \<lparr>block_type = kCompressedFunctionCallBlock, block_size = 22\<rparr> 7 1 4) [1, 2]])"
proof -
  have h1: "capture_mode example_write AND kModeWrite = kModeWrite"
    by (simp add: example_write_def TraceManager_new_def kModeWrite_def)
  have h2: "file_stream example_write = Some []"
    by (simp add: example_write_def)
  have c: "compressor example_write = Some example_compressor"
    by (simp add: example_write_def)
  have p: "parameter_buffer (thread_data example_write) = [1, 2, 3, 4]"
    "call_id (thread_data example_write) = 7" "thread_id (thread_data example_write) = 1"
    by (simp_all add: example_write_def TraceManager_new_def example_thread_def)
  have h3: "\<forall>c. compressor example_write = Some c \<longrightarrow>
      fst (c (parameter_buffer (thread_data example_write)))
        \<le> length (snd (c (parameter_buffer (thread_data example_write))))"
    by (simp add: c p example_compressor_def)
  from EndApiCallTrace_compressed_iff [OF h1 h2 h3] obtain s' hdr payload where
    r: "EndApiCallTrace True example_write = Inr s'" "file_stream s' = Some ([] @ [Block hdr payload])"
    and v: "\<forall>c. compressor example_write = Some c
           \<and> 0 < fst (c (parameter_buffer (thread_data example_write)))
           \<and> fst (c (parameter_buffer (thread_data example_write)))
               < length (parameter_buffer (thread_data example_write))
         \<longrightarrow> hdr = CompressedFunctionCallHeader
                    \<lparr>block_type = kCompressedFunctionCallBlock,
                     block_size = of_nat (20 + fst (c (parameter_buffer (thread_data example_write))))\<rparr>
                    (call_id (thread_data example_write)) (thread_id (thread_data example_write))
                    (of_nat (length (parameter_buffer (thread_data example_write))))
             \<and> payload = take (fst (c (parameter_buffer (thread_data example_write))))
                               (snd (c (parameter_buffer (thread_data example_write))))"
    by blast
  from v [rule_format, of example_compressor] have
    "hdr = CompressedFunctionCallHeader \<lparr>block_type = kCompressedFunctionCallBlock, block_size = 22\<rparr> 7 1 4
     \<and> payload = [1, 2]"
    by (simp add: c p example_compressor_def)
  with r h1 h2 show ?thesis by simp
qed

lemma read_memory_length: "read_memory mem data offset n = Inr bs \<Longrightarrow> length bs = n"
  by (auto simp: read_memory_def split: if_splits option.splits)

lemma fill_compress_cases:
  assumes "fill_compress cmp mem data offset n td = Inr (td1, btype, compressed)"
  shows "compressed = None \<or> (\<exists>buf k. compressed = Some (buf, k) \<and> k < n)"
  using assms
  by (auto simp: fill_compress_def Let_def split: option.splits sum.splits if_splits)

lemma EndApiCallTrace_block_size:
  assumes w: "capture_mode s AND kModeWrite = kModeWrite"
    and len: "length (parameter_buffer (thread_data s)) + 20 < 2 ^ 64"
    and r: "EndApiCallTrace encoder s = Inr s'"
  shows "\<exists>f hdr payload. file_stream s = Some f \<and> file_stream s' = Some (f @ [Block hdr payload])
     \<and> ((\<exists>bh c t. hdr = FunctionCallHeader bh c t \<and> unat (block_size bh) = 12 + length payload)
        \<or> (\<exists>bh c t u. hdr = CompressedFunctionCallHeader bh c t u \<and> unat (block_size bh) = 20 + length payload))"
proof -
  let ?p = "parameter_buffer (thread_data s)"
  from r w obtain f where f: "file_stream s = Some f"
    by (auto simp: EndApiCallTrace_def split: prod.splits option.splits)
  show ?thesis
  proof (cases "\<exists>c. compressor s = Some c \<and> 0 < fst (c ?p) \<and> fst (c ?p) < length ?p")
    case True
    then obtain c where c: "compressor s = Some c" "0 < fst (c ?p)" "fst (c ?p) < length ?p" by auto
    from r w f c have b: "fst (c ?p) \<le> length (snd (c ?p))"
      by (simp add: EndApiCallTrace_def function_call_block_def Let_def split: if_splits)
    have u: "unat (of_nat (20 + fst (c ?p)) :: u64) = 20 + fst (c ?p)"
      using c(3) len by (intro unat_of_nat_u64) simp
    from r w f c b u show ?thesis
      by (auto simp: EndApiCallTrace_def function_call_block_def Let_def
          sizeof_api_call_id_def sizeof_thread_id_def sizeof_uncompressed_size_def
          split: if_splits)
  next
    case False
    have u: "unat (of_nat (12 + length ?p) :: u64) = 12 + length ?p"
      using len by (intro unat_of_nat_u64) simp
    from False have blk: "function_call_block (compressor s) (thread_data s) =
        (case compressor s of None \<Rightarrow> thread_data s
           | Some c \<Rightarrow> (thread_data s)\<lparr>compressed_buffer := snd (c ?p)\<rparr>,
         FunctionCallHeader \<lparr>block_type = kFunctionCallBlock, block_size = of_nat (12 + length ?p)\<rparr>
           (call_id (thread_data s)) (thread_id (thread_data s)),
         ?p, length ?p)"
      by (auto simp: function_call_block_def Let_def sizeof_api_call_id_def sizeof_thread_id_def
          split: option.splits)
    from r w f u show ?thesis
      by (auto simp: EndApiCallTrace_def blk split: if_splits)
  qed
qed

lemma WriteFillMemoryCmd_block_size:
  assumes w: "capture_mode s AND kModeWrite = kModeWrite"
    and len: "unat sz + 36 < 2 ^ 64"
    and r: "WriteFillMemoryCmd memory_id offset sz data s = Inr s'"
  shows "\<exists>f bh payload. file_stream s = Some f
     \<and> file_stream s' = Some (f @ [Block (FillMemoryCommandHeader bh kFillMemoryCommand
            (thread_id (thread_data s)) memory_id offset sz) payload])
     \<and> unat (block_size bh) = 36 + length payload"
proof -
  from r w obtain td1 btype compressed where
    fc: "fill_compress (compressor s) (host_memory s) data offset (unat sz) (thread_data s)
          = Inr (td1, btype, compressed)"
    by (auto simp: WriteFillMemoryCmd_unfold split: sum.splits)
  from r w fc obtain f where f: "file_stream s = Some f"
    by (auto simp: WriteFillMemoryCmd_unfold Let_def split: option.splits)
  from fill_compress_cases [OF fc] show ?thesis
  proof
    assume n: "compressed = None"
    from r w fc f n obtain payload where
      p: "read_memory (host_memory s) data offset (unat sz) = Inr payload"
      by (auto simp: WriteFillMemoryCmd_unfold Let_def split: sum.splits)
    have u: "unat (of_nat (36 + unat sz) :: u64) = 36 + unat sz"
      using len by (intro unat_of_nat_u64) simp
    from r w fc f n p u read_memory_length [OF p] show ?thesis
      by (auto simp: WriteFillMemoryCmd_unfold Let_def sizeof_meta_data_type_def sizeof_thread_id_def
          sizeof_memory_id_def sizeof_memory_offset_def sizeof_memory_size_def)
  next
    assume "\<exists>buf k. compressed = Some (buf, k) \<and> k < unat sz"
    then obtain buf k where c: "compressed = Some (buf, k)" "k < unat sz" by auto
    from r w fc f c have b: "k \<le> length buf"
      by (auto simp: WriteFillMemoryCmd_unfold Let_def split: if_splits)
    have u: "unat (of_nat (36 + k) :: u64) = 36 + k"
      using len c(2) by (intro unat_of_nat_u64) simp
    from r w fc f c b u show ?thesis
      by (auto simp: WriteFillMemoryCmd_unfold Let_def sizeof_meta_data_type_def sizeof_thread_id_def
          sizeof_memory_id_def sizeof_memory_offset_def sizeof_memory_size_def)
  qed
qed

text \<open>
  Where the sizes do not wrap. For buffers shorter than \<open>2 ^ 64\<close> less the header fields,
  the size in the block header of every block that the trace manager has written when a
  method returns equals the number of bytes that follow the block header on disk: for an
  uncompressed function call block 12 (the 4-byte call id and the 8-byte thread id) plus
  the payload length, for a compressed function call block 20 (with the 8-byte
  uncompressed size) plus the compressed payload length, for a fill-memory block 36
  (meta-data type, thread id, memory id, memory offset, memory size) plus the length of
  the payload written, compressed or not, for a display message 12 plus the message
  length, and for a resize window command 28.
\<close>

lemma block_size_counts_bytes_after_block_header:
  assumes "capture_mode s AND kModeWrite = kModeWrite"
    and "length (parameter_buffer (thread_data s)) + 20 < 2 ^ 64"
    and "unat sz + 36 < 2 ^ 64"
  shows "(\<forall>s'. EndApiCallTrace encoder s = Inr s' \<longrightarrow>
            (\<exists>f hdr payload. file_stream s = Some f \<and> file_stream s' = Some (f @ [Block hdr payload])
               \<and> unat (block_size (block_header hdr)) = length (bytes_after_block_header bt mt hdr payload)
               \<and> ((\<exists>bh c t. hdr = FunctionCallHeader bh c t
                      \<and> unat (block_size bh) = 12 + length payload)
                  \<or> (\<exists>bh c t u. hdr = CompressedFunctionCallHeader bh c t u
                      \<and> unat (block_size bh) = 20 + length payload))))
       \<and> (\<forall>s'. WriteFillMemoryCmd memory_id offset sz data s = Inr s' \<longrightarrow>
            (\<exists>f hdr payload. file_stream s = Some f \<and> file_stream s' = Some (f @ [Block hdr payload])
               \<and> unat (block_size (block_header hdr)) = length (bytes_after_block_header bt mt hdr payload)
               \<and> (\<exists>bh m t. hdr = FillMemoryCommandHeader bh m t memory_id offset sz
                      \<and> unat (block_size bh) = 36 + length payload)))
       \<and> (\<forall>s'. WriteDisplayMessageCmd (Some characters) s = Inr s' \<and> length characters + 12 < 2 ^ 64 \<longrightarrow>
            (\<exists>f hdr. file_stream s = Some f \<and> file_stream s' = Some (f @ [Block hdr characters])
               \<and> unat (block_size (block_header hdr)) = length (bytes_after_block_header bt mt hdr characters)
               \<and> (\<exists>bh m t. hdr = DisplayMessageCommandHeader bh m t
                      \<and> unat (block_size bh) = 12 + length characters)))
       \<and> (\<forall>s'. WriteResizeWindowCmd surface_id width height s = Inr s' \<longrightarrow>
            (\<exists>f hdr. file_stream s = Some f \<and> file_stream s' = Some (f @ [Block hdr []])
               \<and> unat (block_size (block_header hdr)) = length (bytes_after_block_header bt mt hdr [])
               \<and> (\<exists>bh m t. hdr = ResizeWindowCommand bh m t surface_id width height
                      \<and> unat (block_size bh) = 28)))"
proof (intro conjI allI impI)
  fix s' assume r: "EndApiCallTrace encoder s = Inr s'"
  from EndApiCallTrace_block_size [OF assms(1,2) r] obtain f hdr payload where
    a: "file_stream s = Some f" "file_stream s' = Some (f @ [Block hdr payload])"
    and b: "(\<exists>bh c t. hdr = FunctionCallHeader bh c t \<and> unat (block_size bh) = 12 + length payload)
        \<or> (\<exists>bh c t u. hdr = CompressedFunctionCallHeader bh c t u \<and> unat (block_size bh) = 20 + length payload)"
    by blast
  from b have "unat (block_size (block_header hdr)) = length (bytes_after_block_header bt mt hdr payload)"
    by (auto simp: length_bytes_after_block_header sizeof_BlockHeader_def sizeof_api_call_id_def
        sizeof_thread_id_def sizeof_uncompressed_size_def)
  with a b show "\<exists>f hdr payload. file_stream s = Some f \<and> file_stream s' = Some (f @ [Block hdr payload])
               \<and> unat (block_size (block_header hdr)) = length (bytes_after_block_header bt mt hdr payload)
               \<and> ((\<exists>bh c t. hdr = FunctionCallHeader bh c t
                      \<and> unat (block_size bh) = 12 + length payload)
                  \<or> (\<exists>bh c t u. hdr = CompressedFunctionCallHeader bh c t u
                      \<and> unat (block_size bh) = 20 + length payload))"
    by blast
next
  fix s' assume r: "WriteFillMemoryCmd memory_id offset sz data s = Inr s'"
  from WriteFillMemoryCmd_block_size [OF assms(1,3) r] obtain f bh payload where
    a: "file_stream s = Some f"
       "file_stream s' = Some (f @ [Block (FillMemoryCommandHeader bh kFillMemoryCommand
            (thread_id (thread_data s)) memory_id offset sz) payload])"
       "unat (block_size bh) = 36 + length payload"
    by blast
  let ?hdr = "FillMemoryCommandHeader bh kFillMemoryCommand (thread_id (thread_data s)) memory_id offset sz"
  from a(3) have "unat (block_size (block_header ?hdr)) = length (bytes_after_block_header bt mt ?hdr payload)"
    by (simp add: length_bytes_after_block_header sizeof_BlockHeader_def sizeof_meta_data_type_def
        sizeof_thread_id_def sizeof_memory_id_def sizeof_memory_offset_def sizeof_memory_size_def)
  with a show "\<exists>f hdr payload. file_stream s = Some f \<and> file_stream s' = Some (f @ [Block hdr payload])
               \<and> unat (block_size (block_header hdr)) = length (bytes_after_block_header bt mt hdr payload)
               \<and> (\<exists>bh m t. hdr = FillMemoryCommandHeader bh m t memory_id offset sz
                      \<and> unat (block_size bh) = 36 + length payload)"
    by blast
next
  fix s' assume r: "WriteDisplayMessageCmd (Some characters) s = Inr s' \<and> length characters + 12 < 2 ^ 64"
  then have u: "unat (of_nat (12 + length characters) :: u64) = 12 + length characters"
    by (intro unat_of_nat_u64) simp
  from r assms(1) obtain f where f: "file_stream s = Some f"
    by (auto simp: WriteDisplayMessageCmd_def Let_def split: option.splits)
  from r assms(1) f u
  show "\<exists>f hdr. file_stream s = Some f \<and> file_stream s' = Some (f @ [Block hdr characters])
               \<and> unat (block_size (block_header hdr)) = length (bytes_after_block_header bt mt hdr characters)
               \<and> (\<exists>bh m t. hdr = DisplayMessageCommandHeader bh m t
                      \<and> unat (block_size bh) = 12 + length characters)"
    by (auto simp: WriteDisplayMessageCmd_def Let_def length_bytes_after_block_header
        sizeof_BlockHeader_def sizeof_meta_data_type_def sizeof_thread_id_def)
next
  fix s' assume r: "WriteResizeWindowCmd surface_id width height s = Inr s'"
  from r assms(1) obtain f where f: "file_stream s = Some f"
    by (auto simp: WriteResizeWindowCmd_def Let_def split: option.splits)
  from r assms(1) f
  show "\<exists>f hdr. file_stream s = Some f \<and> file_stream s' = Some (f @ [Block hdr []])
               \<and> unat (block_size (block_header hdr)) = length (bytes_after_block_header bt mt hdr [])
               \<and> (\<exists>bh m t. hdr = ResizeWindowCommand bh m t surface_id width height
                      \<and> unat (block_size bh) = 28)"
    by (auto simp: WriteResizeWindowCmd_def Let_def length_bytes_after_block_header
        sizeof_BlockHeader_def sizeof_meta_data_type_def sizeof_thread_id_def
        sizeof_surface_id_def sizeof_width_def sizeof_height_def)
qed

lemma block_size_counts_bytes_after_block_header_example:
  "capture_mode example_write AND kModeWrite = kModeWrite
   \<and> length (parameter_buffer (thread_data example_write)) + 20 < 2 ^ 64
   \<and> unat (2 :: u64) + 36 < 2 ^ 64
   \<and> (\<exists>s' hdr payload. EndApiCallTrace True example_write = Inr s'
         \<and> file_stream s' = Some [Block hdr payload]
         \<and> unat (block_size (block_header hdr))
             = length (bytes_after_block_header (\<lambda>t. 4) (\<lambda>t. 2) hdr payload))
   \<and> (\<exists>s' hdr payload. WriteFillMemoryCmd 5 1 2 4096 example_write = Inr s'
         \<and> file_stream s' = Some [Block hdr payload]
         \<and> unat (block_size (block_header hdr))
             = length (bytes_after_block_header (\<lambda>t. 4) (\<lambda>t. 2) hdr payload))"
proof -
  have h1: "capture_mode example_write AND kModeWrite = kModeWrite"
    by (simp add: example_write_def TraceManager_new_def kModeWrite_def)
  have h2: "length (parameter_buffer (thread_data example_write)) + 20 < 2 ^ 64"
    by (simp add: example_write_def TraceManager_new_def example_thread_def)
  have h3: "unat (2 :: u64) + 36 < 2 ^ 64" by simp
  have fs: "file_stream example_write = Some []" by (simp add: example_write_def)
  obtain s1 where r1: "EndApiCallTrace True example_write = Inr s1"
    by (simp add: EndApiCallTrace_def function_call_block_def example_write_def
        TraceManager_new_def example_thread_def example_compressor_def kModeWrite_def Let_def)
  obtain s2 where r2: "WriteFillMemoryCmd 5 1 2 4096 example_write = Inr s2"
    by (simp add: WriteFillMemoryCmd_unfold fill_compress_def read_memory_def example_write_def
        TraceManager_new_def example_thread_def example_compressor_def kModeWrite_def Let_def)
  note t = block_size_counts_bytes_after_block_header [OF h1 h2 h3,
      of True "\<lambda>t. 4" "\<lambda>t. 2" 5 1 4096 "[]" 0 0 0]
  from t r1 fs have a: "\<exists>s' hdr payload. EndApiCallTrace True example_write = Inr s'
         \<and> file_stream s' = Some [Block hdr payload]
         \<and> unat (block_size (block_header hdr))
             = length (bytes_after_block_header (\<lambda>t. 4) (\<lambda>t. 2) hdr payload)"
    by fastforce
  from t r2 fs have b: "\<exists>s' hdr payload. WriteFillMemoryCmd 5 1 2 4096 example_write = Inr s'
         \<and> file_stream s' = Some [Block hdr payload]
         \<and> unat (block_size (block_header hdr))
             = length (bytes_after_block_header (\<lambda>t. 4) (\<lambda>t. 2) hdr payload)"
    by fastforce
  from h1 h2 h3 a b show ?thesis by blast
qed

text \<open>
  Claim C3 says that for every block written the size in its block header equals the
  number of bytes written after the block header. \<^verbatim>\<open>WriteFillMemoryCmd\<close> computes
  that size from the size it is given, in 64-bit arithmetic, and writes the header before
  it reads the payload; the unassisted \<^verbatim>\<open>PreProcess_vkQueueSubmit\<close> gives it a mapped
  size of \<^verbatim>\<open>VK_WHOLE_SIZE\<close> as it is. For 1024 bytes mapped with \<^verbatim>\<open>VK_WHOLE_SIZE\<close>
  the header written carries the size \<open>36 + (2 ^ 64 - 1)\<close> modulo \<open>2 ^ 64\<close>, which is 35,
  while the 36 bytes of its own fields after the block header already follow it; the
  write of the payload then reads past the mapping.
\<close>

theorem WriteFillMemoryCmd_whole_size_header:
  "header_blocks (map_then VK_WHOLE_SIZE (submit_header 16))
     = [Block (FillMemoryCommandHeader \<lparr>block_type = kMetaDataBlock, block_size = 35\<rparr>
                 kFillMemoryCommand 1 1 0 VK_WHOLE_SIZE) []]
   \<and> map size_and_following
         (header_blocks (map_then VK_WHOLE_SIZE (submit_header 16))) = [(35, 36)]
   \<and> submit_after_map VK_WHOLE_SIZE = Inl OutOfBounds"
  by (simp add: then_do_def map_then_def submit_header_def submit_after_map_def header_blocks_def
      blocks_of_def example_unassisted_def TraceManager_new_def
      example_thread_def PostProcess_vkAllocateMemory_def PostProcess_vkMapMemory_def
      PreProcess_vkQueueSubmit_def wrapper_at_def nullptr_def record_mapping_def set_mapping_def
      set_insert_def WriteFillMemoryCmd_unfold WriteFillMemoryCmd_header_def fill_compress_def
      read_memory_def kModeWrite_def kModeTrack_def kFirstFrame_def VK_SUCCESS_def VK_WHOLE_SIZE_def
      Let_def sizeof_meta_data_type_def sizeof_thread_id_def sizeof_memory_id_def
      sizeof_memory_offset_def sizeof_memory_size_def sizeof_BlockHeader_def)

section \<open>Mapped memory\<close>

text \<open>
  Claim C7. A violation of the memory contract only logs a warning: the hook after a
  successful \<^verbatim>\<open>vkMapMemory\<close> on a wrapper whose \<^verbatim>\<open>mapped_data\<close> is already set returns
  the pointer it was given and leaves the state as it was but for one warning in the log
  (no wrapper field, no registration, no block changes), and \<^verbatim>\<open>PreProcess_vkUnmapMemory\<close>
  on a wrapper whose \<^verbatim>\<open>mapped_data\<close> is null does the same. When the map call being
  processed did not succeed, or \<^verbatim>\<open>ppData\<close> is null, the hook returns before it looks
  at the wrapper, and the state is returned as it is.
\<close>

theorem memory_contract_violations_only_warn:
  assumes "wrapper_at s memory = Inr w"
  shows "(mapped_data w \<noteq> nullptr \<longrightarrow>
            PostProcess_vkMapMemory result memory offset sz ppData effective s
              = Inr (ppData,
                     if result = VK_SUCCESS \<and> ppData \<noteq> None then
                       s\<lparr>log_output := log_output s
                           @ [(kWarningSeverity, ''VkDeviceMemory object has been mapped more than once'')]\<rparr>
                     else s))
       \<and> (mapped_data w = nullptr \<longrightarrow>
            PreProcess_vkUnmapMemory memory s
              = Inr (s\<lparr>log_output := log_output s
                         @ [(kWarningSeverity,
                             ''Attempting to unmap VkDeviceMemory object that has not been mapped'')]\<rparr>))"
  using assms
  by (auto simp: PostProcess_vkMapMemory_def PreProcess_vkUnmapMemory_def log_message_def
      split: option.splits)

theorem memory_contract_violations_only_warn_witness:
  "wrapper_at example_page_guard 16
     = Inr \<lparr>handle_id = 1, allocation_size = 4, mapped_data = 4096, mapped_offset = 0, mapped_size = 4\<rparr>
   \<and> PostProcess_vkMapMemory VK_SUCCESS 16 0 4 (Some 4096) 20480 example_page_guard
       = Inr (Some 4096,
              example_page_guard\<lparr>log_output :=
                [(kWarningSeverity, ''VkDeviceMemory object has been mapped more than once'')]\<rparr>)
   \<and> wrapper_at example_page_guard 48
       = Inr \<lparr>handle_id = 3, allocation_size = 0, mapped_data = 0, mapped_offset = 0, mapped_size = 0\<rparr>
   \<and> PreProcess_vkUnmapMemory 48 example_page_guard
       = Inr (example_page_guard\<lparr>log_output :=
                [(kWarningSeverity, ''Attempting to unmap VkDeviceMemory object that has not been mapped'')]\<rparr>)"
proof -
  have a: "wrapper_at example_page_guard 16
     = Inr \<lparr>handle_id = 1, allocation_size = 4, mapped_data = 4096, mapped_offset = 0, mapped_size = 4\<rparr>"
    by (simp add: wrapper_at_def example_page_guard_def nullptr_def)
  have b: "wrapper_at example_page_guard 48
       = Inr \<lparr>handle_id = 3, allocation_size = 0, mapped_data = 0, mapped_offset = 0, mapped_size = 0\<rparr>"
    by (simp add: wrapper_at_def example_page_guard_def nullptr_def)
  have l: "log_output example_page_guard = []"
    by (simp add: example_page_guard_def TraceManager_new_def)
  from memory_contract_violations_only_warn [OF a, of VK_SUCCESS 0 4 "Some 4096" 20480]
    memory_contract_violations_only_warn [OF b] a b l
  show ?thesis by (simp add: nullptr_def)
qed

subsection \<open>What writing blocks leaves alone\<close>

lemma same_but_stream_refl: "same_but_stream s s"
  by (simp add: same_but_stream_def)

lemma same_but_stream_trans: "same_but_stream s s' \<Longrightarrow> same_but_stream s' s'' \<Longrightarrow> same_but_stream s s''"
  by (simp add: same_but_stream_def)

lemma WriteFillMemoryCmd_same:
  assumes "WriteFillMemoryCmd i off sz d s = Inr s'"
  shows "same_but_stream s s'"
  using assms
  by (auto simp: WriteFillMemoryCmd_unfold same_but_stream_def Let_def
      split: if_splits sum.splits option.splits prod.splits)

lemma WriteFillMemoryCmd_fills_other:
  assumes "WriteFillMemoryCmd i off sz d s = Inr s'" "i \<noteq> h"
  shows "fills_for h s' = fills_for h s"
  using assms
  by (auto simp: WriteFillMemoryCmd_unfold fills_for_def Let_def
      split: if_splits sum.splits option.splits prod.splits)

lemma visit_dirty_fill:
  assumes "visit_dirty fill_visitor i start ds s = Inr s'"
  shows "same_but_stream s s' \<and> (i \<noteq> h \<longrightarrow> fills_for h s' = fills_for h s)"
  using assms
proof (induction ds arbitrary: s)
  case Nil
  then show ?case by (simp add: same_but_stream_refl)
next
  case (Cons d ds)
  have "visit_dirty fill_visitor i start (d # ds) s =
      (case WriteFillMemoryCmd i (of_nat (fst d)) (of_nat (snd d)) start s of
         Inl e \<Rightarrow> Inl e | Inr s1 \<Rightarrow> visit_dirty fill_visitor i start ds s1)"
    by (simp add: fill_visitor_def)
  with Cons.prems obtain s1 where
    a: "WriteFillMemoryCmd i (of_nat (fst d)) (of_nat (snd d)) start s = Inr s1"
    and b: "visit_dirty fill_visitor i start ds s1 = Inr s'"
    by (auto split: sum.splits)
  from Cons.IH [OF b] WriteFillMemoryCmd_same [OF a] WriteFillMemoryCmd_fills_other [OF a]
  show ?case by (auto intro: same_but_stream_trans)
qed

lemma visit_entries_fill:
  assumes "visit_entries fill_visitor es s = Inr s'"
  shows "same_but_stream s s' \<and> (h \<notin> fst ` set es \<longrightarrow> fills_for h s' = fills_for h s)"
  using assms
proof (induction es arbitrary: s)
  case Nil
  then show ?case by (simp add: same_but_stream_refl)
next
  case (Cons e es)
  from Cons.prems obtain s1 where
    a: "visit_dirty fill_visitor (fst e) (start_address (snd e)) (dirty (snd e)) s = Inr s1"
    and b: "visit_entries fill_visitor es s1 = Inr s'"
    by (auto split: sum.splits)
  from Cons.IH [OF b] visit_dirty_fill [OF a, of h]
  show ?case by (auto intro: same_but_stream_trans)
qed

lemma map_fst_mark: "map fst (map (\<lambda>e. if fst e = i then (fst e, g e) else e) xs) = map fst xs"
  by (induction xs) auto

lemma mark_clean_ids: "fst ` set (memory_info (mark_clean i m)) = fst ` set (memory_info m)"
proof -
  have "map fst (memory_info (mark_clean i m)) = map fst (memory_info m)"
    by (simp add: mark_clean_def map_fst_mark)
  then have "set (map fst (memory_info (mark_clean i m))) = set (map fst (memory_info m))"
    by simp
  then show ?thesis by simp
qed

lemma harvest_effect:
  assumes "harvest i s = Inr s'" "page_guard s = Some manager"
  shows "wrappers s' = wrappers s \<and> memory_tracking_mode s' = memory_tracking_mode s
       \<and> log_output s' = log_output s \<and> capture_mode s' = capture_mode s
       \<and> mapped_memory s' = mapped_memory s
       \<and> (\<exists>manager'. page_guard s' = Some manager' \<and> harvested manager' = harvested manager @ [i]
            \<and> fst ` set (memory_info manager') = fst ` set (memory_info manager))
       \<and> (i \<notin> fst ` set (memory_info manager) \<longrightarrow> file_stream s' = file_stream s)"
proof (cases "map_of (memory_info manager) i")
  case None
  with assms show ?thesis
    by (auto simp: harvest_def ProcessMemoryEntry_def Let_def)
next
  case (Some info)
  with assms obtain s1 where
    v: "visit_dirty fill_visitor i (start_address info) (dirty info) s = Inr s1"
    and s': "s' = s1\<lparr>page_guard := Some (mark_clean i (manager\<lparr>harvested := harvested manager @ [i]\<rparr>))\<rparr>"
    by (auto simp: harvest_def ProcessMemoryEntry_def Let_def split: sum.splits)
  have img: "fst ` set (memory_info (mark_clean i (manager\<lparr>harvested := harvested manager @ [i]\<rparr>)))
      = fst ` set (memory_info manager)"
    using mark_clean_ids [of i "manager\<lparr>harvested := harvested manager @ [i]\<rparr>"] by simp
  from Some have "i \<in> fst ` set (memory_info manager)"
    by (metis map_of_eq_None_iff option.distinct(1))
  with visit_dirty_fill [OF v, of i] img show ?thesis
    by (simp add: s' same_but_stream_def mark_clean_def)
qed

subsection \<open>Flushing in page guard mode\<close>

lemma remdups_adj_head: "remdups_adj (x # xs) = x # tl (remdups_adj (x # xs))"
  by simp

lemma tl_remdups_adj_same: "tl (remdups_adj (x # x # xs)) = tl (remdups_adj (x # xs))"
  by simp

lemma tl_remdups_adj_diff:
  "x \<noteq> y \<Longrightarrow> tl (remdups_adj (x # y # xs)) = y # tl (remdups_adj (y # xs))"
  using remdups_adj_head [of y xs] by (simp del: remdups_adj_Cons_alt)

lemma mapped_handle_id_cong: "wrappers s' = wrappers s \<Longrightarrow> mapped_handle_id s' = mapped_handle_id s"
  by (rule ext) (simp add: mapped_handle_id_def)

lemma flush_page_guard_harvests:
  assumes "flush_page_guard rs current s = Inr s'" "page_guard s = Some m"
  shows "wrappers s' = wrappers s \<and> memory_tracking_mode s' = memory_tracking_mode s
     \<and> (\<exists>m'. page_guard s' = Some m'
          \<and> harvested m' = harvested m
               @ List.map_filter (mapped_handle_id s) (tl (remdups_adj (current # map range_memory rs))))
     \<and> log_output s' = log_output s
          @ replicate (length (filter (\<lambda>h. mapped_handle_id s h = None)
                                 (tl (remdups_adj (current # map range_memory rs)))))
              not_mapped_warning"
  using assms
proof (induction rs arbitrary: current s m)
  case Nil
  then show ?case by (simp add: List.map_filter_simps)
next
  case (Cons r rs)
  show ?case
  proof (cases "range_memory r = current")
    case True
    with Cons.prems have "flush_page_guard rs current s = Inr s'" by simp
    from Cons.IH [OF this Cons.prems(2)] True show ?thesis by simp
  next
    case False
    let ?next = "range_memory r"
    let ?rest = "tl (remdups_adj (?next # map range_memory rs))"
    have list: "tl (remdups_adj (current # map range_memory (r # rs))) = ?next # ?rest"
      using False tl_remdups_adj_diff [of current ?next "map range_memory rs"] by auto
    show ?thesis
    proof (cases "mapped_handle_id s ?next")
      case None
      with Cons.prems(1) False have
        step: "flush_page_guard rs ?next (log_message kWarningSeverity
                  ''vkFlushMappedMemoryRanges called for memory that is not mapped'' s) = Inr s'"
        by (auto simp: mapped_handle_id_def wrapper_at_def split: if_splits option.splits sum.splits)
      let ?s1 = "log_message kWarningSeverity
                  ''vkFlushMappedMemoryRanges called for memory that is not mapped'' s"
      have pg: "page_guard ?s1 = Some m" using Cons.prems(2) by (simp add: log_message_def)
      have mh: "mapped_handle_id ?s1 = mapped_handle_id s"
        by (rule mapped_handle_id_cong) (simp add: log_message_def)
      from Cons.IH [OF step pg] None show ?thesis
        unfolding list mh
        by (simp add: List.map_filter_simps log_message_def not_mapped_warning_def
            replicate_app_Cons_same del: remdups_adj_Cons_alt)
    next
      case (Some i)
      then obtain w where w: "?next \<noteq> nullptr" "wrappers s ?next = Some w"
        "mapped_data w \<noteq> nullptr" "handle_id w = i"
        by (auto simp: mapped_handle_id_def split: if_splits option.splits)
      with Cons.prems(1) False obtain s1 where
        h: "harvest i s = Inr s1" and step: "flush_page_guard rs ?next s1 = Inr s'"
        by (auto simp: wrapper_at_def split: sum.splits)
      from harvest_effect [OF h Cons.prems(2)] obtain m1 where
        e: "wrappers s1 = wrappers s" "memory_tracking_mode s1 = memory_tracking_mode s"
           "log_output s1 = log_output s" "page_guard s1 = Some m1"
           "harvested m1 = harvested m @ [i]"
        by auto
      have mh: "mapped_handle_id s1 = mapped_handle_id s"
        by (rule mapped_handle_id_cong) (rule e(1))
      from Cons.IH [OF step e(4)] Some e show ?thesis
        unfolding list mh by (simp add: List.map_filter_simps del: remdups_adj_Cons_alt)
    qed
  qed
qed

lemma configuration_kept_refl: "configuration_kept s s"
  by (simp add: configuration_kept_def)

lemma configuration_kept_trans:
  "configuration_kept s s' \<Longrightarrow> configuration_kept s' s'' \<Longrightarrow> configuration_kept s s''"
  by (simp add: configuration_kept_def)

lemma WriteFillMemoryCmd_written:
  assumes "WriteFillMemoryCmd i off sz d s = Inr s'"
  shows "configuration_kept s s' \<and> page_guard s' = page_guard s \<and> log_output s' = log_output s
       \<and> (file_stream s' = None) = (file_stream s = None)
       \<and> (\<exists>new. blocks_of s' = blocks_of s @ new
             \<and> map fill_fields new = (if write_enabled s then [Some (i, off, sz)] else []))"
  using assms
  by (auto simp: WriteFillMemoryCmd_unfold configuration_kept_def blocks_of_def write_enabled_def
      Let_def split: if_splits sum.splits option.splits prod.splits)

lemma visit_dirty_written:
  assumes "visit_dirty fill_visitor i start ds s = Inr s'"
  shows "configuration_kept s s' \<and> page_guard s' = page_guard s \<and> log_output s' = log_output s
       \<and> (file_stream s' = None) = (file_stream s = None)
       \<and> (\<exists>new. blocks_of s' = blocks_of s @ new
             \<and> map fill_fields new
                 = (if write_enabled s
                    then map (\<lambda>d. Some (i, of_nat (fst d), of_nat (snd d))) ds else []))"
  using assms
proof (induction ds arbitrary: s)
  case Nil
  then show ?case by (simp add: configuration_kept_refl)
next
  case (Cons d ds)
  have "visit_dirty fill_visitor i start (d # ds) s =
      (case WriteFillMemoryCmd i (of_nat (fst d)) (of_nat (snd d)) start s of
         Inl e \<Rightarrow> Inl e | Inr s1 \<Rightarrow> visit_dirty fill_visitor i start ds s1)"
    by (simp add: fill_visitor_def)
  with Cons.prems obtain s1 where
    a: "WriteFillMemoryCmd i (of_nat (fst d)) (of_nat (snd d)) start s = Inr s1"
    and b: "visit_dirty fill_visitor i start ds s1 = Inr s'"
    by (auto split: sum.splits)
  from WriteFillMemoryCmd_written [OF a] obtain n1 where
    k1: "configuration_kept s s1" "page_guard s1 = page_guard s" "log_output s1 = log_output s"
        "(file_stream s1 = None) = (file_stream s = None)"
    and n1: "blocks_of s1 = blocks_of s @ n1"
        "map fill_fields n1 = (if write_enabled s then [Some (i, of_nat (fst d), of_nat (snd d))] else [])"
    by (elim conjE exE) (rule that; assumption)
  from Cons.IH [OF b] obtain n2 where
    k2: "configuration_kept s1 s'" "page_guard s' = page_guard s1" "log_output s' = log_output s1"
        "(file_stream s' = None) = (file_stream s1 = None)"
    and n2: "blocks_of s' = blocks_of s1 @ n2"
        "map fill_fields n2 = (if write_enabled s1
            then map (\<lambda>d. Some (i, of_nat (fst d), of_nat (snd d))) ds else [])"
    by (elim conjE exE) (rule that; assumption)
  from k1(1) have w: "write_enabled s1 = write_enabled s"
    by (simp add: configuration_kept_def write_enabled_def)
  have "blocks_of s' = blocks_of s @ (n1 @ n2)" using n1(1) n2(1) by simp
  moreover have "map fill_fields (n1 @ n2) = (if write_enabled s
        then map (\<lambda>d. Some (i, of_nat (fst d), of_nat (snd d))) (d # ds) else [])"
    using n1(2) n2(2) w by simp
  ultimately show ?case
    using k1 k2 configuration_kept_trans [OF k1(1) k2(1)] by auto
qed

lemma harvest_written:
  assumes "harvest i s = Inr s'" "page_guard s = Some manager"
  shows "configuration_kept s s' \<and> page_guard s' = Some (harvested_manager i manager)
       \<and> log_output s' = log_output s
       \<and> (file_stream s' = None) = (file_stream s = None)
       \<and> (\<exists>new. blocks_of s' = blocks_of s @ new
             \<and> map fill_fields new = (if write_enabled s then dirty_fills manager i else []))"
proof (cases "map_of (memory_info manager) i")
  case None
  with assms show ?thesis
    by (auto simp: harvest_def ProcessMemoryEntry_def Let_def harvested_manager_def dirty_fills_def
        configuration_kept_def blocks_of_def)
next
  case (Some info)
  with assms obtain s1 where
    v: "visit_dirty fill_visitor i (start_address info) (dirty info) s = Inr s1"
    and s': "s' = s1\<lparr>page_guard := Some (mark_clean i (manager\<lparr>harvested := harvested manager @ [i]\<rparr>))\<rparr>"
    by (auto simp: harvest_def ProcessMemoryEntry_def Let_def split: sum.splits)
  from visit_dirty_written [OF v] obtain new where
    k: "configuration_kept s s1" "log_output s1 = log_output s"
       "(file_stream s1 = None) = (file_stream s = None)"
    and n: "blocks_of s1 = blocks_of s @ new"
       "map fill_fields new = (if write_enabled s
            then map (\<lambda>d. Some (i, of_nat (fst d), of_nat (snd d))) (dirty info) else [])"
    by (elim conjE exE) (rule that; assumption)
  have "blocks_of s' = blocks_of s @ new" using n(1) by (simp add: s' blocks_of_def)
  moreover have "map fill_fields new = (if write_enabled s then dirty_fills manager i else [])"
    using n(2) Some by (simp add: dirty_fills_def)
  ultimately show ?thesis
    using k Some by (auto simp: s' configuration_kept_def harvested_manager_def)
qed


lemma write_enabled_kept: "configuration_kept s s' \<Longrightarrow> write_enabled s' = write_enabled s"
  by (simp add: configuration_kept_def write_enabled_def)

lemma mapped_handle_id_kept: "configuration_kept s s' \<Longrightarrow> mapped_handle_id s' = mapped_handle_id s"
  by (rule mapped_handle_id_cong) (simp add: configuration_kept_def)

lemma flush_page_guard_written:
  assumes "flush_page_guard rs current s = Inr s'" "page_guard s = Some m"
  shows "configuration_kept s s'
     \<and> page_guard s' = Some (fold harvested_manager
          (List.map_filter (mapped_handle_id s) (tl (remdups_adj (current # map range_memory rs)))) m)
     \<and> (file_stream s' = None) = (file_stream s = None)
     \<and> (\<exists>new. blocks_of s' = blocks_of s @ new
           \<and> map fill_fields new
               = (if write_enabled s
                  then harvest_fills m
                    (List.map_filter (mapped_handle_id s) (tl (remdups_adj (current # map range_memory rs))))
                  else []))"
  using assms
proof (induction rs arbitrary: current s m)
  case Nil
  then show ?case by (simp add: List.map_filter_simps configuration_kept_refl)
next
  case (Cons r rs)
  show ?case
  proof (cases "range_memory r = current")
    case True
    with Cons.prems have again: "flush_page_guard rs current s = Inr s'" by simp
    have eq: "tl (remdups_adj (current # map range_memory (r # rs)))
        = tl (remdups_adj (current # map range_memory rs))"
      using True by simp
    from Cons.IH [OF again Cons.prems(2)] show ?thesis unfolding eq .
  next
    case False
    let ?next = "range_memory r"
    let ?rest = "tl (remdups_adj (?next # map range_memory rs))"
    have list: "tl (remdups_adj (current # map range_memory (r # rs))) = ?next # ?rest"
      using False tl_remdups_adj_diff [of current ?next "map range_memory rs"] by auto
    show ?thesis
    proof (cases "mapped_handle_id s ?next")
      case None
      let ?s1 = "log_message kWarningSeverity
                  ''vkFlushMappedMemoryRanges called for memory that is not mapped'' s"
      from None Cons.prems(1) False have step: "flush_page_guard rs ?next ?s1 = Inr s'"
        by (auto simp: mapped_handle_id_def wrapper_at_def split: if_splits option.splits sum.splits)
      have pg: "page_guard ?s1 = Some m" using Cons.prems(2) by (simp add: log_message_def)
      have k1: "configuration_kept s ?s1" by (simp add: configuration_kept_def log_message_def)
      have b1: "blocks_of ?s1 = blocks_of s" "(file_stream ?s1 = None) = (file_stream s = None)"
        by (simp_all add: blocks_of_def log_message_def)
      note mh = mapped_handle_id_kept [OF k1] and we = write_enabled_kept [OF k1]
      from Cons.IH [OF step pg] obtain new where
        k2: "configuration_kept ?s1 s'"
        and p2: "page_guard s' = Some (fold harvested_manager (List.map_filter (mapped_handle_id s) ?rest) m)"
        and f2: "(file_stream s' = None) = (file_stream ?s1 = None)"
        and n2: "blocks_of s' = blocks_of ?s1 @ new"
           "map fill_fields new = (if write_enabled s
               then harvest_fills m (List.map_filter (mapped_handle_id s) ?rest) else [])"
        unfolding mh we by (elim conjE exE) (rule that; assumption)
      have run: "List.map_filter (mapped_handle_id s) (?next # ?rest)
          = List.map_filter (mapped_handle_id s) ?rest"
        using None by (simp add: List.map_filter_simps del: remdups_adj_Cons_alt)
      show ?thesis
        unfolding list run
        using configuration_kept_trans [OF k1 k2] p2 f2 n2 b1 by auto
    next
      case (Some i)
      then obtain w where w: "?next \<noteq> nullptr" "wrappers s ?next = Some w"
        "mapped_data w \<noteq> nullptr" "handle_id w = i"
        by (auto simp: mapped_handle_id_def split: if_splits option.splits)
      with Cons.prems(1) False obtain s1 where
        h: "harvest i s = Inr s1" and step: "flush_page_guard rs ?next s1 = Inr s'"
        by (auto simp: wrapper_at_def split: sum.splits)
      from harvest_written [OF h Cons.prems(2)] obtain n1 where
        k1: "configuration_kept s s1"
        and pg: "page_guard s1 = Some (harvested_manager i m)"
        and f1: "(file_stream s1 = None) = (file_stream s = None)"
        and n1: "blocks_of s1 = blocks_of s @ n1"
           "map fill_fields n1 = (if write_enabled s then dirty_fills m i else [])"
        by (elim conjE exE) (rule that; assumption)
      note mh = mapped_handle_id_kept [OF k1] and we = write_enabled_kept [OF k1]
      from Cons.IH [OF step pg] obtain n2 where
        k2: "configuration_kept s1 s'"
        and p2: "page_guard s' = Some (fold harvested_manager
                    (List.map_filter (mapped_handle_id s) ?rest) (harvested_manager i m))"
        and f2: "(file_stream s' = None) = (file_stream s1 = None)"
        and n2: "blocks_of s' = blocks_of s1 @ n2"
           "map fill_fields n2 = (if write_enabled s
               then harvest_fills (harvested_manager i m) (List.map_filter (mapped_handle_id s) ?rest)
               else [])"
        unfolding mh we by (elim conjE exE) (rule that; assumption)
      have run: "List.map_filter (mapped_handle_id s) (?next # ?rest)
          = i # List.map_filter (mapped_handle_id s) ?rest"
        using Some by (simp add: List.map_filter_simps del: remdups_adj_Cons_alt)
      have "blocks_of s' = blocks_of s @ (n1 @ n2)" using n1(1) n2(1) by simp
      moreover have "map fill_fields (n1 @ n2) = (if write_enabled s
          then harvest_fills m (i # List.map_filter (mapped_handle_id s) ?rest) else [])"
        using n1(2) n2(2) by simp
      ultimately show ?thesis
        unfolding list run
        using configuration_kept_trans [OF k1 k2] p2 f1 f2 by auto
    qed
  qed
qed

text \<open>
  The state after the flush is the state after the calls of \<^verbatim>\<open>WriteFillMemoryCmd\<close> of the
  harvests, with the manager and the log brought up to date.
\<close>

lemma WriteFillMemoryCmd_page_guard:
  "WriteFillMemoryCmd i off sz d (s\<lparr>page_guard := p\<rparr>)
     = map_sum id (\<lambda>t. t\<lparr>page_guard := p\<rparr>) (WriteFillMemoryCmd i off sz d s)"
  by (simp add: WriteFillMemoryCmd_unfold Let_def split: sum.splits option.splits prod.splits)

lemma WriteFillMemoryCmd_log_output:
  "WriteFillMemoryCmd i off sz d (s\<lparr>log_output := l\<rparr>)
     = map_sum id (\<lambda>t. t\<lparr>log_output := l\<rparr>) (WriteFillMemoryCmd i off sz d s)"
  by (simp add: WriteFillMemoryCmd_unfold Let_def split: sum.splits option.splits prod.splits)

lemma WriteFillMemoryCmds_page_guard:
  "WriteFillMemoryCmds calls (s\<lparr>page_guard := p\<rparr>)
     = map_sum id (\<lambda>t. t\<lparr>page_guard := p\<rparr>) (WriteFillMemoryCmds calls s)"
proof (induction calls arbitrary: s)
  case Nil
  show ?case by simp
next
  case (Cons c calls)
  obtain i off sz d where c: "c = (i, off, sz, d)" by (cases c)
  show ?case
    unfolding c by (cases "WriteFillMemoryCmd i off sz d s") (simp_all add: WriteFillMemoryCmd_page_guard Cons.IH)
qed

lemma WriteFillMemoryCmds_log_output:
  "WriteFillMemoryCmds calls (s\<lparr>log_output := l\<rparr>)
     = map_sum id (\<lambda>t. t\<lparr>log_output := l\<rparr>) (WriteFillMemoryCmds calls s)"
proof (induction calls arbitrary: s)
  case Nil
  show ?case by simp
next
  case (Cons c calls)
  obtain i off sz d where c: "c = (i, off, sz, d)" by (cases c)
  show ?case
    unfolding c by (cases "WriteFillMemoryCmd i off sz d s") (simp_all add: WriteFillMemoryCmd_log_output Cons.IH)
qed

lemma WriteFillMemoryCmds_append:
  "WriteFillMemoryCmds (xs @ ys) s =
     (case WriteFillMemoryCmds xs s of Inl e \<Rightarrow> Inl e | Inr s1 \<Rightarrow> WriteFillMemoryCmds ys s1)"
proof (induction xs arbitrary: s)
  case Nil
  show ?case by simp
next
  case (Cons c xs)
  obtain i off sz d where c: "c = (i, off, sz, d)" by (cases c)
  show ?case unfolding c by (simp add: Cons.IH split: sum.splits)
qed

lemma visit_dirty_calls:
  "visit_dirty fill_visitor i start ds s
     = WriteFillMemoryCmds (map (\<lambda>d. (i, of_nat (fst d), of_nat (snd d), start)) ds) s"
  by (induction ds arbitrary: s) (simp_all add: fill_visitor_def split: sum.splits)

lemma WriteFillMemoryCmds_log_kept:
  "WriteFillMemoryCmds calls s = Inr s' \<Longrightarrow> log_output s' = log_output s"
proof (induction calls arbitrary: s)
  case Nil
  then show ?case by simp
next
  case (Cons c calls)
  obtain i off sz d where c: "c = (i, off, sz, d)" by (cases c)
  from Cons.prems obtain s1 where a: "WriteFillMemoryCmd i off sz d s = Inr s1"
    and b: "WriteFillMemoryCmds calls s1 = Inr s'"
    unfolding c by (auto split: sum.splits)
  from WriteFillMemoryCmd_written [OF a] Cons.IH [OF b] show ?case by simp
qed

lemma harvest_calls_made:
  assumes "harvest i s = Inr s'" "page_guard s = Some manager"
  shows "\<exists>written. WriteFillMemoryCmds (dirty_calls manager i) s = Inr written
           \<and> s' = written\<lparr>page_guard := Some (harvested_manager i manager)\<rparr>"
  using assms
  by (auto simp: harvest_def ProcessMemoryEntry_def Let_def harvested_manager_def dirty_calls_def
      visit_dirty_calls split: option.splits sum.splits)

lemma flush_page_guard_calls:
  assumes "flush_page_guard rs current s = Inr s'" "page_guard s = Some m"
  shows "\<exists>written.
           WriteFillMemoryCmds (harvest_calls m
             (List.map_filter (mapped_handle_id s) (tl (remdups_adj (current # map range_memory rs))))) s
             = Inr written
         \<and> s' = written
             \<lparr>page_guard := Some (fold harvested_manager
                (List.map_filter (mapped_handle_id s) (tl (remdups_adj (current # map range_memory rs)))) m),
              log_output := log_output s
                @ replicate (length (filter (\<lambda>h. mapped_handle_id s h = None)
                    (tl (remdups_adj (current # map range_memory rs))))) not_mapped_warning\<rparr>"
  using assms
proof (induction rs arbitrary: current s m)
  case Nil
  then show ?case by (simp add: List.map_filter_simps)
next
  case (Cons r rs)
  show ?case
  proof (cases "range_memory r = current")
    case True
    with Cons.prems have again: "flush_page_guard rs current s = Inr s'" by simp
    have eq: "tl (remdups_adj (current # map range_memory (r # rs)))
        = tl (remdups_adj (current # map range_memory rs))"
      using True by simp
    from Cons.IH [OF again Cons.prems(2)] show ?thesis unfolding eq .
  next
    case False
    let ?next = "range_memory r"
    let ?rest = "tl (remdups_adj (?next # map range_memory rs))"
    have list: "tl (remdups_adj (current # map range_memory (r # rs))) = ?next # ?rest"
      using False tl_remdups_adj_diff [of current ?next "map range_memory rs"] by auto
    show ?thesis
    proof (cases "mapped_handle_id s ?next")
      case None
      let ?l = "log_output s @ [not_mapped_warning]"
      let ?s1 = "s\<lparr>log_output := ?l\<rparr>"
      from None Cons.prems(1) False have step: "flush_page_guard rs ?next ?s1 = Inr s'"
        by (auto simp: mapped_handle_id_def wrapper_at_def log_message_def not_mapped_warning_def
            split: if_splits option.splits sum.splits)
      have pg: "page_guard ?s1 = Some m" using Cons.prems(2) by simp
      have mh: "mapped_handle_id ?s1 = mapped_handle_id s"
        by (rule mapped_handle_id_cong) simp
      let ?ids = "List.map_filter (mapped_handle_id s) ?rest"
      let ?k = "length (filter (\<lambda>h. mapped_handle_id s h = None) ?rest)"
      from Cons.IH [OF step pg] obtain w1 where
        c1: "WriteFillMemoryCmds (harvest_calls m ?ids) ?s1 = Inr w1"
        and e1: "s' = w1\<lparr>page_guard := Some (fold harvested_manager ?ids m),
                         log_output := log_output ?s1 @ replicate ?k not_mapped_warning\<rparr>"
        unfolding mh by (elim conjE exE) (rule that; assumption)
      from c1 obtain w0 where
        c0: "WriteFillMemoryCmds (harvest_calls m ?ids) s = Inr w0" and w1: "w1 = w0\<lparr>log_output := ?l\<rparr>"
        unfolding WriteFillMemoryCmds_log_output
        by (cases "WriteFillMemoryCmds (harvest_calls m ?ids) s") auto
      have run: "List.map_filter (mapped_handle_id s) (?next # ?rest) = ?ids"
        "length (filter (\<lambda>h. mapped_handle_id s h = None) (?next # ?rest)) = Suc ?k"
        using None by (simp_all add: List.map_filter_simps del: remdups_adj_Cons_alt)
      have "s' = w0\<lparr>page_guard := Some (fold harvested_manager ?ids m),
                    log_output := log_output s @ replicate (Suc ?k) not_mapped_warning\<rparr>"
        unfolding e1 w1 by simp
      with c0 show ?thesis unfolding list run by blast
    next
      case (Some i)
      then obtain w where w: "?next \<noteq> nullptr" "wrappers s ?next = Some w"
        "mapped_data w \<noteq> nullptr" "handle_id w = i"
        by (auto simp: mapped_handle_id_def split: if_splits option.splits)
      with Cons.prems(1) False obtain s1 where
        h: "harvest i s = Inr s1" and step: "flush_page_guard rs ?next s1 = Inr s'"
        by (auto simp: wrapper_at_def split: sum.splits)
      let ?m1 = "harvested_manager i m"
      from harvest_calls_made [OF h Cons.prems(2)] obtain wa where
        ca: "WriteFillMemoryCmds (dirty_calls m i) s = Inr wa"
        and s1: "s1 = wa\<lparr>page_guard := Some ?m1\<rparr>"
        by (elim conjE exE) (rule that; assumption)
      from harvest_written [OF h Cons.prems(2)] have k1: "configuration_kept s s1"
        and l1: "log_output s1 = log_output s" by simp_all
      have pg: "page_guard s1 = Some ?m1" by (simp add: s1)
      note mh = mapped_handle_id_kept [OF k1]
      let ?ids = "List.map_filter (mapped_handle_id s) ?rest"
      let ?k = "length (filter (\<lambda>h. mapped_handle_id s h = None) ?rest)"
      from Cons.IH [OF step pg] obtain w1 where
        c1: "WriteFillMemoryCmds (harvest_calls ?m1 ?ids) s1 = Inr w1"
        and e1: "s' = w1\<lparr>page_guard := Some (fold harvested_manager ?ids ?m1),
                         log_output := log_output s @ replicate ?k not_mapped_warning\<rparr>"
        unfolding mh l1 by (elim conjE exE) (rule that; assumption)
      from c1 obtain w0 where
        c0: "WriteFillMemoryCmds (harvest_calls ?m1 ?ids) wa = Inr w0"
        and w1: "w1 = w0\<lparr>page_guard := Some ?m1\<rparr>"
        unfolding s1 WriteFillMemoryCmds_page_guard
        by (cases "WriteFillMemoryCmds (harvest_calls ?m1 ?ids) wa") auto
      have run: "List.map_filter (mapped_handle_id s) (?next # ?rest) = i # ?ids"
        "length (filter (\<lambda>h. mapped_handle_id s h = None) (?next # ?rest)) = ?k"
        using Some by (simp_all add: List.map_filter_simps del: remdups_adj_Cons_alt)
      have "WriteFillMemoryCmds (harvest_calls m (i # ?ids)) s = Inr w0"
        using ca c0 by (simp add: WriteFillMemoryCmds_append)
      moreover have "s' = w0\<lparr>page_guard := Some (fold harvested_manager (i # ?ids) m),
                    log_output := log_output s @ replicate ?k not_mapped_warning\<rparr>"
        unfolding e1 w1 by simp
      ultimately show ?thesis unfolding list run by blast
    qed
  qed
qed

text \<open>
  Claim C6, as the code has it. In page guard mode
  \<^verbatim>\<open>PreProcess_vkFlushMappedMemoryRanges\<close> suppresses a range only when it names the
  same memory object as the range right before it: for every maximal run of consecutive
  ranges that name one memory object, \<^verbatim>\<open>ProcessMemoryEntry\<close> is called once if the
  object is mapped, which, while the Write bit is set, appends one fill command to the
  capture stream for each sub-range of the region that is dirty at that moment and marks
  the region clean; if the object is not mapped nothing is written and one warning is
  logged (not even that for a leading run of null handles). A memory object named again
  after a range for another object is harvested again. The blocks appended are these fill
  commands and no others, the manager is left as these harvests leave it, and nothing
  else of the state changes but the byte counter and the scratch buffer of the thread:
  the state afterwards is the one that the calls of \<^verbatim>\<open>WriteFillMemoryCmd\<close> for these
  dirty sub-ranges, made one after the other on the state before, produce, but for the
  manager and the log.
\<close>

theorem flush_page_guard_harvests_once_per_run:
  assumes "memory_tracking_mode s = kPageGuard"
    and "page_guard s = Some manager"
    and "PreProcess_vkFlushMappedMemoryRanges memoryRangeCount (Some ranges) s = Inr s'"
  shows "harvests_of (Inr s') = harvested manager
           @ List.map_filter (mapped_handle_id s)
               (tl (remdups_adj (nullptr # map range_memory (take memoryRangeCount ranges))))
       \<and> log_output s' = log_output s
           @ replicate (length (filter (\<lambda>h. mapped_handle_id s h = None)
                  (tl (remdups_adj (nullptr # map range_memory (take memoryRangeCount ranges))))))
               not_mapped_warning
       \<and> page_guard s' = Some (fold harvested_manager
            (List.map_filter (mapped_handle_id s)
               (tl (remdups_adj (nullptr # map range_memory (take memoryRangeCount ranges)))))
            manager)
       \<and> (\<exists>new. blocks_of s' = blocks_of s @ new
             \<and> map fill_fields new
                 = (if write_enabled s
                    then harvest_fills manager
                      (List.map_filter (mapped_handle_id s)
                         (tl (remdups_adj (nullptr # map range_memory (take memoryRangeCount ranges)))))
                    else []))
       \<and> (file_stream s' = None) = (file_stream s = None)
       \<and> configuration_kept s s'
       \<and> (\<exists>written.
             WriteFillMemoryCmds
               (harvest_calls manager
                  (List.map_filter (mapped_handle_id s)
                     (tl (remdups_adj (nullptr # map range_memory (take memoryRangeCount ranges))))))
               s = Inr written
           \<and> s' = written
               \<lparr>page_guard := Some (fold harvested_manager
                  (List.map_filter (mapped_handle_id s)
                     (tl (remdups_adj (nullptr # map range_memory (take memoryRangeCount ranges)))))
                  manager),
                log_output := log_output s
                  @ replicate (length (filter (\<lambda>h. mapped_handle_id s h = None)
                      (tl (remdups_adj (nullptr # map range_memory (take memoryRangeCount ranges))))))
                    not_mapped_warning\<rparr>)"
proof -
  from assms(1,3) have f: "flush_page_guard (take memoryRangeCount ranges) nullptr s = Inr s'"
    by (auto simp: PreProcess_vkFlushMappedMemoryRanges_def split: sum.splits if_splits)
  from flush_page_guard_harvests [OF f assms(2)] have a:
    "harvests_of (Inr s') = harvested manager
           @ List.map_filter (mapped_handle_id s)
               (tl (remdups_adj (nullptr # map range_memory (take memoryRangeCount ranges))))"
    "log_output s' = log_output s
           @ replicate (length (filter (\<lambda>h. mapped_handle_id s h = None)
                  (tl (remdups_adj (nullptr # map range_memory (take memoryRangeCount ranges))))))
               not_mapped_warning"
    by (auto simp: harvests_of_def)
  from flush_page_guard_written [OF f assms(2)] flush_page_guard_calls [OF f assms(2)] a
  show ?thesis by blast
qed

theorem flush_page_guard_harvests_once_per_run_witness:
  "memory_tracking_mode example_page_guard = kPageGuard
   \<and> harvests_of (Inr example_page_guard) = []
   \<and> harvests_of (PreProcess_vkFlushMappedMemoryRanges 4
        (Some [example_range 16, example_range 16, example_range 48, example_range 32])
        example_page_guard) = [1, 2]
   \<and> map_sum id log_output (PreProcess_vkFlushMappedMemoryRanges 4
        (Some [example_range 16, example_range 16, example_range 48, example_range 32])
        example_page_guard) = Inr [not_mapped_warning]
   \<and> blocks_of example_page_guard = []
   \<and> map fill_fields (result_blocks (PreProcess_vkFlushMappedMemoryRanges 4
        (Some [example_range 16, example_range 16, example_range 48, example_range 32])
        example_page_guard)) = [Some (1, 1, 2)]"
proof -
  let ?ranges = "[example_range 16, example_range 16, example_range 48, example_range 32]"
  let ?manager = "\<lparr>memory_info =
                  [(1, \<lparr>start_address = 4096, region_size = 4, dirty = [(1, 2)]\<rparr>),
                   (2, \<lparr>start_address = 8192, region_size = 2, dirty = []\<rparr>)],
                harvested = []\<rparr>"
  have h1: "memory_tracking_mode example_page_guard = kPageGuard"
    by (simp add: example_page_guard_def TraceManager_new_def)
  have h2: "page_guard example_page_guard = Some ?manager"
    by (simp add: example_page_guard_def)
  obtain s' where h3: "PreProcess_vkFlushMappedMemoryRanges 4 (Some ?ranges) example_page_guard = Inr s'"
    by (simp add: example_page_guard_def TraceManager_new_def example_thread_def example_range_def
        PreProcess_vkFlushMappedMemoryRanges_def wrapper_at_def nullptr_def harvest_def
        ProcessMemoryEntry_def fill_visitor_def WriteFillMemoryCmd_unfold fill_compress_def
        read_memory_def kModeWrite_def kFirstFrame_def Let_def mark_clean_def log_message_def)
  have m: "List.map_filter (mapped_handle_id example_page_guard)
             (tl (remdups_adj (nullptr # map range_memory (take 4 ?ranges)))) = [1, 2]"
    "length (filter (\<lambda>h. mapped_handle_id example_page_guard h = None)
             (tl (remdups_adj (nullptr # map range_memory (take 4 ?ranges))))) = 1"
    by (simp_all add: List.map_filter_simps mapped_handle_id_def example_page_guard_def
        example_range_def nullptr_def)
  have l: "log_output example_page_guard = []" "blocks_of example_page_guard = []"
    by (simp_all add: example_page_guard_def TraceManager_new_def blocks_of_def)
  have we: "write_enabled example_page_guard"
    by (simp add: example_page_guard_def TraceManager_new_def write_enabled_def kModeWrite_def)
  have hf: "harvest_fills ?manager [1, 2] = [Some (1, 1, 2)]"
    by (simp add: dirty_fills_def harvested_manager_def mark_clean_def)
  from flush_page_guard_harvests_once_per_run [OF h1 h2 h3] have
    "harvests_of (Inr s') = [1, 2]" "log_output s' = [not_mapped_warning]"
    "\<exists>new. blocks_of s' = new \<and> map fill_fields new = [Some (1, 1, 2)]"
    unfolding m l hf using we by simp_all
  with h1 h2 l show ?thesis by (simp add: h3 harvests_of_def result_blocks_def)
qed

text \<open>
  The claim as written (every mapped memory object named by the ranges is harvested at
  most once per call, all duplicate ranges being suppressed) fails when the ranges for one
  object are not adjacent: for the ranges of the objects A, B, A the harvest of A is
  requested twice in the one call.
\<close>

theorem flush_page_guard_harvests_twice_counterexample:
  "count_list (harvests_of (PreProcess_vkFlushMappedMemoryRanges 3
       (Some [example_range 16, example_range 32, example_range 16]) example_page_guard)) 1 = 2"
  by (simp add: example_page_guard_def TraceManager_new_def example_thread_def example_range_def
      PreProcess_vkFlushMappedMemoryRanges_def harvests_of_def wrapper_at_def nullptr_def harvest_def
      ProcessMemoryEntry_def fill_visitor_def WriteFillMemoryCmd_unfold fill_compress_def
      read_memory_def kModeWrite_def kFirstFrame_def Let_def mark_clean_def log_message_def)

subsection \<open>Mapping in page guard mode\<close>

lemma record_mapping_eq:
  assumes "record_mapping memory d off z s = Inr s1" "wrapper_at s memory = Inr w"
  shows "s1 = s\<lparr>wrappers := (wrappers s)(memory \<mapsto> w\<lparr>mapped_data := d, mapped_offset := off, mapped_size := z\<rparr>)\<rparr>"
  using assms
  by (auto simp: record_mapping_def TrackMappedMemory_def set_mapping_def
      split: if_splits option.splits sum.splits)

lemma wrapper_at_update:
  assumes "wrapper_at s memory = Inr w"
  shows "wrapper_at (s\<lparr>wrappers := (wrappers s)(memory \<mapsto> w')\<rparr>) memory = Inr w'"
  using assms by (auto simp: wrapper_at_def split: if_splits option.splits)

lemma flush_same_memory:
  "\<forall>r \<in> set rs. range_memory r = current \<Longrightarrow> flush_page_guard rs current s = Inr s"
  by (induction rs) auto

lemma flush_untracked:
  assumes pg: "page_guard s = Some manager"
    and w: "wrapper_at s memory = Inr w"
    and un: "handle_id w \<notin> fst ` set (memory_info manager)"
    and all: "\<forall>r \<in> set rs. range_memory r = memory"
    and r: "flush_page_guard rs nullptr s = Inr s'"
  shows "file_stream s' = file_stream s"
proof (cases rs)
  case Nil
  with r show ?thesis by simp
next
  case (Cons r0 rs0)
  from w have nn: "memory \<noteq> nullptr" by (auto simp: wrapper_at_def split: if_splits)
  from all Cons have m0: "range_memory r0 = memory" and rest: "\<forall>r \<in> set rs0. range_memory r = memory"
    by auto
  show ?thesis
  proof (cases "mapped_data w \<noteq> nullptr")
    case True
    with r Cons m0 nn w obtain s1 where
      h: "harvest (handle_id w) s = Inr s1" and f: "flush_page_guard rs0 memory s1 = Inr s'"
      by (auto split: sum.splits)
    from flush_same_memory [OF rest, of s1] f have "s' = s1" by simp
    with harvest_effect [OF h pg] un show ?thesis by simp
  next
    case False
    with r Cons m0 nn w have
      "flush_page_guard rs0 memory (log_message kWarningSeverity
          ''vkFlushMappedMemoryRanges called for memory that is not mapped'' s) = Inr s'"
      by auto
    with flush_same_memory [OF rest] show ?thesis by (auto simp: log_message_def)
  qed
qed

lemma unmap_untracked:
  assumes mode: "memory_tracking_mode s = kPageGuard"
    and pg: "page_guard s = Some manager"
    and w: "wrapper_at s memory = Inr w"
    and un: "handle_id w \<notin> fst ` set (memory_info manager)"
    and r: "PreProcess_vkUnmapMemory memory s = Inr s'"
  shows "file_stream s' = file_stream s"
proof (cases "mapped_data w \<noteq> nullptr")
  case False
  with r w show ?thesis by (auto simp: PreProcess_vkUnmapMemory_def log_message_def)
next
  case True
  with r w obtain s1 where rm: "record_mapping memory nullptr 0 0 s = Inr s1"
    by (auto simp: PreProcess_vkUnmapMemory_def split: sum.splits)
  let ?w1 = "w\<lparr>mapped_data := nullptr, mapped_offset := 0, mapped_size := 0\<rparr>"
  from record_mapping_eq [OF rm w] have s1: "s1 = s\<lparr>wrappers := (wrappers s)(memory \<mapsto> ?w1)\<rparr>" .
  have w1: "wrapper_at s1 memory = Inr ?w1" unfolding s1 by (rule wrapper_at_update [OF w])
  have pg1: "page_guard s1 = Some manager" and mode1: "memory_tracking_mode s1 = kPageGuard"
    and fs1: "file_stream s1 = file_stream s"
    using pg mode by (simp_all add: s1)
  from r w True rm w1 mode1 obtain s2 where h: "harvest (handle_id w) s1 = Inr s2"
    and s': "\<exists>m2. s' = s2\<lparr>page_guard := Some m2\<rparr>"
    by (auto simp: PreProcess_vkUnmapMemory_def split: sum.splits option.splits)
  from harvest_effect [OF h pg1] un have "file_stream s2 = file_stream s1" by simp
  with s' fs1 show ?thesis by auto
qed

lemma submit_untracked:
  assumes mode: "memory_tracking_mode s = kPageGuard"
    and pg: "page_guard s = Some manager"
    and un: "h \<notin> fst ` set (memory_info manager)"
    and r: "PreProcess_vkQueueSubmit s = Inr s'"
  shows "fills_for h s' = fills_for h s"
proof -
  from r mode pg obtain s1 where v: "visit_entries fill_visitor (memory_info manager) s = Inr s1"
    and s': "\<exists>m1. s' = s1\<lparr>page_guard := Some m1\<rparr>"
    by (auto simp: PreProcess_vkQueueSubmit_def ProcessMemoryEntries_def split: sum.splits)
  from visit_entries_fill [OF v, of h] un have "fills_for h s1 = fills_for h s" by simp
  with s' show ?thesis by (auto simp: fills_for_def)
qed

text \<open>
  Claim C9. In page guard mode the hook after a successful map of an unmapped wrapper
  registers the region with the page guard manager, and replaces the pointer of the
  application by the pointer of the manager, exactly when the mapping size, with
  \<^verbatim>\<open>VK_WHOLE_SIZE\<close> resolved to the allocation size, is greater than zero. For a resolved
  size of zero the pointer is returned as it came and the manager is as before; the
  region is then not tracked (when it was not before), and a later flush of ranges of
  this memory, its unmap and a queue submit write no fill-memory block for it.
\<close>

theorem page_guard_map_registers_only_positive_size:
  assumes "memory_tracking_mode s = kPageGuard"
    and "page_guard s = Some manager"
    and "wrapper_at s memory = Inr w"
    and "mapped_data w = nullptr"
    and "PostProcess_vkMapMemory VK_SUCCESS memory offset sz (Some data) effective s = Inr (out, s')"
  shows "(0 < (if sz = VK_WHOLE_SIZE then allocation_size w else sz) \<longrightarrow>
            out = Some effective
          \<and> page_guard s' = Some (snd (AddMemory (handle_id w) data
                (unat (if sz = VK_WHOLE_SIZE then allocation_size w else sz)) False effective manager)))
       \<and> ((if sz = VK_WHOLE_SIZE then allocation_size w else sz) = 0 \<longrightarrow>
            out = Some data \<and> page_guard s' = Some manager \<and> file_stream s' = file_stream s
          \<and> (handle_id w \<notin> fst ` set (memory_info manager) \<longrightarrow>
               (\<forall>n ranges s''. (\<forall>r \<in> set ranges. range_memory r = memory)
                    \<and> PreProcess_vkFlushMappedMemoryRanges n (Some ranges) s' = Inr s''
                  \<longrightarrow> file_stream s'' = file_stream s')
             \<and> (\<forall>s''. PreProcess_vkUnmapMemory memory s' = Inr s'' \<longrightarrow> file_stream s'' = file_stream s')
             \<and> (\<forall>s''. PreProcess_vkQueueSubmit s' = Inr s''
                  \<longrightarrow> fills_for (handle_id w) s'' = fills_for (handle_id w) s')))"
proof -
  let ?w1 = "w\<lparr>mapped_data := data, mapped_offset := offset, mapped_size := sz\<rparr>"
  let ?rs = "if sz = VK_WHOLE_SIZE then allocation_size w else sz"
  from assms(3,4,5) obtain s1 where rm: "record_mapping memory data offset sz s = Inr s1"
    by (auto simp: PostProcess_vkMapMemory_def split: sum.splits)
  from record_mapping_eq [OF rm assms(3)] have s1: "s1 = s\<lparr>wrappers := (wrappers s)(memory \<mapsto> ?w1)\<rparr>" .
  have w1: "wrapper_at s1 memory = Inr ?w1" unfolding s1 by (rule wrapper_at_update [OF assms(3)])
  have pg1: "page_guard s1 = Some manager" and mode1: "memory_tracking_mode s1 = kPageGuard"
    using assms(1,2) by (simp_all add: s1)
  have res: "Inr (out, s') =
      (if 0 < ?rs then
         (case AddMemory (handle_id w) data (unat ?rs) False effective manager of
            (p, manager') \<Rightarrow> Inr (Some p, s1\<lparr>page_guard := Some manager'\<rparr>))
       else (Inr (Some data, s1) :: fault + (u64 option \<times> capture_system)))"
    using assms(3,4,5) rm w1 pg1 mode1
    by (auto simp: PostProcess_vkMapMemory_def Let_def AddMemory_def)
  have pos: "out = Some effective \<and> page_guard s' = Some (snd (AddMemory (handle_id w) data (unat ?rs) False effective manager))"
    if "0 < ?rs"
    using res that by (auto simp: AddMemory_def)
  have zero: "out = Some data \<and> s' = s1" if "?rs = 0"
    using res that by auto
  have later: "(\<forall>n ranges s''. (\<forall>r \<in> set ranges. range_memory r = memory)
                    \<and> PreProcess_vkFlushMappedMemoryRanges n (Some ranges) s' = Inr s''
                  \<longrightarrow> file_stream s'' = file_stream s')
             \<and> (\<forall>s''. PreProcess_vkUnmapMemory memory s' = Inr s'' \<longrightarrow> file_stream s'' = file_stream s')
             \<and> (\<forall>s''. PreProcess_vkQueueSubmit s' = Inr s''
                  \<longrightarrow> fills_for (handle_id w) s'' = fills_for (handle_id w) s')"
    if z: "?rs = 0" and un: "handle_id w \<notin> fst ` set (memory_info manager)"
  proof (intro conjI allI impI)
    from zero [OF z] have e: "s' = s1" by simp
    have un1: "handle_id ?w1 \<notin> fst ` set (memory_info manager)" using un by simp
    {
      fix n ranges s''
      assume a: "(\<forall>r \<in> set ranges. range_memory r = memory)
                    \<and> PreProcess_vkFlushMappedMemoryRanges n (Some ranges) s' = Inr s''"
      then have all: "\<forall>r \<in> set (take n ranges). range_memory r = memory"
        by (auto dest: in_set_takeD)
      from a mode1 have "flush_page_guard (take n ranges) nullptr s1 = Inr s''"
        by (auto simp: e PreProcess_vkFlushMappedMemoryRanges_def split: sum.splits if_splits)
      from flush_untracked [OF pg1 w1 un1 all this]
      show "file_stream s'' = file_stream s'" by (simp add: e)
    next
      fix s''
      assume "PreProcess_vkUnmapMemory memory s' = Inr s''"
      then have "PreProcess_vkUnmapMemory memory s1 = Inr s''" by (simp add: e)
      from unmap_untracked [OF mode1 pg1 w1 un1 this]
      show "file_stream s'' = file_stream s'" by (simp add: e)
    next
      fix s''
      assume "PreProcess_vkQueueSubmit s' = Inr s''"
      then have "PreProcess_vkQueueSubmit s1 = Inr s''" by (simp add: e)
      from submit_untracked [OF mode1 pg1 un this]
      show "fills_for (handle_id w) s'' = fills_for (handle_id w) s'" by (simp add: e)
    }
  qed
  from zero pg1 have z2: "out = Some data \<and> page_guard s' = Some manager \<and> file_stream s' = file_stream s"
    if "?rs = 0" using that by (simp add: s1)
  show ?thesis using pos z2 later by blast
qed

theorem page_guard_map_registers_only_positive_size_witness:
  "memory_tracking_mode example_page_guard = kPageGuard
   \<and> (\<exists>s'. PostProcess_vkMapMemory VK_SUCCESS 48 0 8 (Some 12288) 20480 example_page_guard
              = Inr (Some 20480, s'))
   \<and> PostProcess_vkMapMemory VK_SUCCESS 48 0 VK_WHOLE_SIZE (Some 12288) 20480 example_page_guard
       = Inr (Some 12288, example_zero_mapped)
   \<and> page_guard example_zero_mapped = page_guard example_page_guard
   \<and> (\<exists>s''. PreProcess_vkUnmapMemory 48 example_zero_mapped = Inr s''
          \<and> file_stream s'' = file_stream example_zero_mapped)
   \<and> (\<exists>s''. PreProcess_vkQueueSubmit example_zero_mapped = Inr s''
          \<and> fills_for 3 s'' = fills_for 3 example_zero_mapped)"
proof -
  let ?w = "\<lparr>handle_id = 3, allocation_size = 0, mapped_data = 0, mapped_offset = 0, mapped_size = 0\<rparr>"
  have h1: "memory_tracking_mode example_page_guard = kPageGuard"
    by (simp add: example_page_guard_def TraceManager_new_def)
  obtain manager where h2: "page_guard example_page_guard = Some manager"
    and ids: "fst ` set (memory_info manager) = {1, 2}"
    by (simp add: example_page_guard_def)
  have h3: "wrapper_at example_page_guard 48 = Inr ?w"
    by (simp add: wrapper_at_def example_page_guard_def nullptr_def)
  have h4: "mapped_data ?w = nullptr" by (simp add: nullptr_def)
  obtain out s' where pos:
    "PostProcess_vkMapMemory VK_SUCCESS 48 0 8 (Some 12288) 20480 example_page_guard = Inr (out, s')"
    by (simp add: PostProcess_vkMapMemory_def wrapper_at_def example_page_guard_def nullptr_def
        TraceManager_new_def record_mapping_def set_mapping_def kModeWrite_def kModeTrack_def
        VK_WHOLE_SIZE_def AddMemory_def Let_def)
  have zero:
    "PostProcess_vkMapMemory VK_SUCCESS 48 0 VK_WHOLE_SIZE (Some 12288) 20480 example_page_guard
       = Inr (Some 12288, example_zero_mapped)"
    by (simp add: PostProcess_vkMapMemory_def wrapper_at_def example_page_guard_def nullptr_def
        TraceManager_new_def record_mapping_def set_mapping_def kModeWrite_def kModeTrack_def
        example_zero_mapped_def Let_def)
  obtain u where unmap: "PreProcess_vkUnmapMemory 48 example_zero_mapped = Inr u"
    by (simp add: PreProcess_vkUnmapMemory_def wrapper_at_def example_page_guard_def nullptr_def
        example_zero_mapped_def TraceManager_new_def record_mapping_def set_mapping_def
        kModeWrite_def kModeTrack_def VK_WHOLE_SIZE_def harvest_def ProcessMemoryEntry_def
        RemoveMemory_def Let_def)
  obtain q where submit: "PreProcess_vkQueueSubmit example_zero_mapped = Inr q"
    by (simp add: PreProcess_vkQueueSubmit_def example_page_guard_def example_zero_mapped_def
        TraceManager_new_def example_thread_def ProcessMemoryEntries_def fill_visitor_def
        WriteFillMemoryCmd_unfold fill_compress_def read_memory_def kModeWrite_def Let_def)
  have un: "handle_id ?w \<notin> fst ` set (memory_info manager)" by (simp add: ids)
  have rp: "0 < (if (8 :: u64) = VK_WHOLE_SIZE then allocation_size ?w else 8)"
    by (simp add: VK_WHOLE_SIZE_def)
  have rz: "(if VK_WHOLE_SIZE = VK_WHOLE_SIZE then allocation_size ?w else VK_WHOLE_SIZE) = 0"
    by simp
  note P = page_guard_map_registers_only_positive_size [OF h1 h2 h3 h4 pos, THEN conjunct1, THEN mp, OF rp]
  note Z = page_guard_map_registers_only_positive_size [OF h1 h2 h3 h4 zero, THEN conjunct2, THEN mp, OF rz]
  from P have a: "out = Some 20480" by (rule conjunct1)
  from Z have b: "page_guard example_zero_mapped = Some manager" by blast
  from Z un have
    c: "\<forall>s''. PreProcess_vkUnmapMemory 48 example_zero_mapped = Inr s''
               \<longrightarrow> file_stream s'' = file_stream example_zero_mapped"
    and d: "\<forall>s''. PreProcess_vkQueueSubmit example_zero_mapped = Inr s''
               \<longrightarrow> fills_for (handle_id ?w) s'' = fills_for (handle_id ?w) example_zero_mapped"
    by blast+
  from d have d': "\<forall>s''. PreProcess_vkQueueSubmit example_zero_mapped = Inr s''
               \<longrightarrow> fills_for 3 s'' = fills_for 3 example_zero_mapped"
    by simp
  from pos a have p: "\<exists>s'. PostProcess_vkMapMemory VK_SUCCESS 48 0 8 (Some 12288) 20480 example_page_guard
              = Inr (Some 20480, s')" by blast
  from c unmap have e: "\<exists>s''. PreProcess_vkUnmapMemory 48 example_zero_mapped = Inr s''
          \<and> file_stream s'' = file_stream example_zero_mapped" by blast
  from d' submit have f: "\<exists>s''. PreProcess_vkQueueSubmit example_zero_mapped = Inr s''
          \<and> fills_for 3 s'' = fills_for 3 example_zero_mapped" by blast
  from h1 p zero b h2 e f show ?thesis by simp
qed

section \<open>Queue submit in unassisted mode\<close>

text \<open>
  What the unassisted branch writes when it returns: one fill command per wrapper in the
  set of mapped wrappers, in the order of the set, with the id of the wrapper, offset 0,
  and \<^verbatim>\<open>mapped_size\<close> as the wrapper holds it for the memory size.
\<close>

lemma WriteFillMemoryCmd_appends:
  assumes "WriteFillMemoryCmd i off sz d s = Inr s'" "capture_mode s AND kModeWrite = kModeWrite"
    "file_stream s = Some f"
  shows "\<exists>b. file_stream s' = Some (f @ [b]) \<and> fill_fields b = Some (i, off, sz)"
  using assms
  by (auto simp: WriteFillMemoryCmd_unfold Let_def split: sum.splits option.splits prod.splits if_splits)

lemma submit_unassisted_fills:
  assumes "submit_unassisted ms s = Inr s'" "capture_mode s AND kModeWrite = kModeWrite"
    "file_stream s = Some f"
  shows "\<exists>new. file_stream s' = Some (f @ new)
          \<and> map fill_fields new
              = map (\<lambda>m. map_option (\<lambda>w. (handle_id w, 0, mapped_size w)) (wrappers s m)) ms"
  using assms
proof (induction ms arbitrary: s f)
  case Nil
  then show ?case by simp
next
  case (Cons m ms)
  from Cons.prems(1) obtain w s1 where
    w: "wrapper_at s m = Inr w"
    and a: "WriteFillMemoryCmd (handle_id w) 0 (mapped_size w) (mapped_data w) s = Inr s1"
    and b: "submit_unassisted ms s1 = Inr s'"
    by (auto split: sum.splits)
  from w have wm: "wrappers s m = Some w"
    by (auto simp: wrapper_at_def split: if_splits option.splits)
  from WriteFillMemoryCmd_appends [OF a Cons.prems(2,3)] obtain blk where
    blk: "file_stream s1 = Some (f @ [blk])" "fill_fields blk = Some (handle_id w, 0, mapped_size w)"
    by blast
  from WriteFillMemoryCmd_same [OF a] have same: "wrappers s1 = wrappers s"
    "capture_mode s1 = capture_mode s"
    by (simp_all add: same_but_stream_def)
  from Cons.IH [OF b _ blk(1)] same Cons.prems(2) obtain new where
    new: "file_stream s' = Some ((f @ [blk]) @ new)"
      "map fill_fields new = map (\<lambda>m. map_option (\<lambda>w. (handle_id w, 0, mapped_size w)) (wrappers s m)) ms"
    by auto
  show ?case
    by (rule exI [of _ "blk # new"]) (simp add: new blk wm)
qed

lemma PreProcess_vkQueueSubmit_unassisted_fills:
  assumes "memory_tracking_mode s = kUnassisted"
    and "PreProcess_vkQueueSubmit s = Inr s'"
    and "capture_mode s AND kModeWrite = kModeWrite"
    and "file_stream s = Some f"
  shows "\<exists>new. file_stream s' = Some (f @ new)
          \<and> map fill_fields new
              = map (\<lambda>m. map_option (\<lambda>w. (handle_id w, 0, mapped_size w)) (wrappers s m))
                  (mapped_memory s)"
proof -
  from assms(1,2) have "submit_unassisted (mapped_memory s) s = Inr s'"
    by (simp add: PreProcess_vkQueueSubmit_def)
  from submit_unassisted_fills [OF this assms(3,4)] show ?thesis .
qed

text \<open>
  Claim C4 says that in unassisted mode \<^verbatim>\<open>PreProcess_vkQueueSubmit\<close> writes one fill
  command per mapped wrapper, with offset 0 and the whole mapped extent as its size, a
  mapped size of \<^verbatim>\<open>VK_WHOLE_SIZE\<close> being resolved against the allocation size. The code
  hands \<^verbatim>\<open>mapped_size\<close> to \<^verbatim>\<open>WriteFillMemoryCmd\<close> as it is, where
  \<^verbatim>\<open>PreProcess_vkUnmapMemory\<close> resolves it first: for 1024 bytes mapped with
  \<^verbatim>\<open>VK_WHOLE_SIZE\<close> the fill command is asked to write \<open>2 ^ 64 - 1\<close> bytes from the
  mapped pointer, which reads past the 1024 bytes that are there.
\<close>

theorem PreProcess_vkQueueSubmit_whole_size_unresolved:
  "submit_after_map VK_WHOLE_SIZE = Inl OutOfBounds"
  by (simp add: then_do_def submit_after_map_def example_unassisted_def TraceManager_new_def
      example_thread_def PostProcess_vkAllocateMemory_def PostProcess_vkMapMemory_def
      PreProcess_vkQueueSubmit_def wrapper_at_def nullptr_def record_mapping_def set_mapping_def
      set_insert_def WriteFillMemoryCmd_unfold fill_compress_def read_memory_def kModeWrite_def
      kModeTrack_def kFirstFrame_def VK_SUCCESS_def VK_WHOLE_SIZE_def Let_def)

text \<open>With the size given as 1024 the same submit writes the one fill command.\<close>

lemma PreProcess_vkQueueSubmit_sized:
  "map_sum id file_stream (submit_after_map 1024)
     = Inr (Some [Block (FillMemoryCommandHeader \<lparr>block_type = kMetaDataBlock, block_size = 1060\<rparr>
                    kFillMemoryCommand 1 1 0 1024) (replicate 1024 0)])"
  by (simp add: then_do_def submit_after_map_def example_unassisted_def TraceManager_new_def
      example_thread_def PostProcess_vkAllocateMemory_def PostProcess_vkMapMemory_def
      PreProcess_vkQueueSubmit_def wrapper_at_def nullptr_def record_mapping_def set_mapping_def
      set_insert_def WriteFillMemoryCmd_unfold fill_compress_def read_memory_def kModeWrite_def
      kModeTrack_def kFirstFrame_def VK_SUCCESS_def VK_WHOLE_SIZE_def Let_def
      sizeof_meta_data_type_def sizeof_thread_id_def sizeof_memory_id_def
      sizeof_memory_offset_def sizeof_memory_size_def)

section \<open>Releasing resources when capture is disabled\<close>

text \<open>
  A trim activation whose capture file does not open: the failure is logged as fatal, the
  mode becomes Disabled, trimming is off and no file stream is left; the compressor and
  the state tracker are as before.
\<close>

lemma ActivateTrimming_failure:
  assumes "ActivateTrimming False s = Inr s'"
  shows "capture_mode s' = kModeDisabled \<and> \<not> trim_enabled s' \<and> file_stream s' = None
       \<and> compressor s' = compressor s \<and> state_tracker s' = state_tracker s
       \<and> log_output s' = log_output s
            @ [(kFatalSeverity, ''Failed to initialize capture for trim range; capture has been disabled'')]"
  using assms
  by (auto simp: ActivateTrimming_def CreateCaptureFile_def log_message_def Let_def split: if_splits)

text \<open>
  Claim C5 says that every transition of the capture mode to Disabled releases the file
  stream, the compressor and the state tracker, on the path of a failed trim activation
  as on the path that ends the last trim range. The code releases the compressor and the
  state tracker only on the second path: with one trim range that starts at frame 2 and a
  capture file that cannot be opened at the end of frame 1, the mode becomes Disabled and
  trimming is off, there is no file stream, and the compressor and the state tracker are
  still held.
\<close>

theorem ActivateTrimming_failure_keeps_resources:
  "owned_resources (first_EndFrame False [\<lparr>first = 2, total_frames = 1\<rparr>])
     = Some (kModeDisabled, False, False, True, True)"
  by (simp add: then_do_def first_EndFrame_def owned_resources_def example_settings_def
      example_CreateCompressor_def Initialize_def EndFrame_def ActivateTrimming_def
      CreateCaptureFile_def WriteFileHeader_def WriteState_def log_message_def
      TraceManager_new_def example_thread_def kModeWrite_def kModeTrack_def kModeWriteAndTrack_def
      kModeDisabled_def kFirstFrame_def Let_def)

text \<open>The end of the last trim range, for comparison: everything is released.\<close>

lemma EndFrame_last_range_releases:
  "owned_resources (first_EndFrame True [\<lparr>first = 1, total_frames = 1\<rparr>])
     = Some (kModeDisabled, False, False, False, False)"
  by (simp add: then_do_def first_EndFrame_def owned_resources_def example_settings_def
      example_CreateCompressor_def Initialize_def EndFrame_def ActivateTrimming_def
      CreateCaptureFile_def WriteFileHeader_def WriteState_def log_message_def
      TraceManager_new_def example_thread_def kModeWrite_def kModeTrack_def kModeWriteAndTrack_def
      kModeDisabled_def kFirstFrame_def Let_def)

section \<open>Trim ranges and the capture mode\<close>






















end
